theory Spec2Isabelle
  imports Main
begin

section \<open>JSON values, HTTP responses, exceptions\<close>

text \<open>
  The handlers of \<^verbatim>\<open>enhanced_chrome_extension_server.py\<close> build Python dicts and lists
  and hand them to Flask's \<^verbatim>\<open>jsonify\<close>. A dict is an association list in insertion
  order. Floating point numbers do not occur in what the handlers build.
\<close>

datatype json =
    JNull
  | JBool bool
  | JNum int
  | JStr string
  | JArr "json list"
  | JObj "(string \<times> json) list"

text \<open>Python's truth value of a decoded JSON value (\<^verbatim>\<open>if not keyword\<close>).\<close>

fun truthy :: "json \<Rightarrow> bool" where
  "truthy JNull = False"
| "truthy (JBool b) = b"
| "truthy (JNum n) = (n \<noteq> 0)"
| "truthy (JStr s) = (s \<noteq> [])"
| "truthy (JArr xs) = (xs \<noteq> [])"
| "truthy (JObj kvs) = (kvs \<noteq> [])"

text \<open>The keys of a JSON object and the value under a key.\<close>

fun dict_keys :: "json \<Rightarrow> string list" where
  "dict_keys (JObj kvs) = map fst kvs"
| "dict_keys _ = []"

fun field :: "json \<Rightarrow> string \<Rightarrow> json option" where
  "field (JObj kvs) k = map_of kvs k"
| "field _ k = None"

fun is_object :: "json \<Rightarrow> bool" where
  "is_object (JObj kvs) = True"
| "is_object _ = False"

record http_response =
  status :: nat
  body :: json

text \<open>\<^verbatim>\<open>jsonify(d)\<close> answers 200; \<^verbatim>\<open>return jsonify(d), code\<close> answers \<open>code\<close>.\<close>

definition jsonify :: "json \<Rightarrow> http_response" where
  "jsonify d = \<lparr>status = 200, body = d\<rparr>"

definition jsonify_code :: "json \<Rightarrow> nat \<Rightarrow> http_response" where
  "jsonify_code d code = \<lparr>status = code, body = d\<rparr>"

text \<open>A raised Python exception, with the text that \<^verbatim>\<open>str(e)\<close> gives.\<close>

datatype exn = Exn string

fun str_exn :: "exn \<Rightarrow> string" where
  "str_exn (Exn msg) = msg"

section \<open>Dates\<close>

record datetime =
  year :: nat
  month :: nat
  day :: nat
  hour :: nat
  minute :: nat
  second :: nat
  microsecond :: nat

text \<open>\<^verbatim>\<open>dt.date()\<close>: the calendar day of a datetime.\<close>

definition date :: "datetime \<Rightarrow> nat \<times> nat \<times> nat" where
  "date dt = (year dt, month dt, day dt)"

text \<open>
  The functions of Python's \<^verbatim>\<open>datetime\<close> module that the server calls are parameters:
  \<^verbatim>\<open>datetime.strptime(s, fmt)\<close> (which raises ValueError on a string that does not
  parse), \<^verbatim>\<open>dt.strftime(fmt)\<close> and \<^verbatim>\<open>dt.isoformat()\<close>.
\<close>

record pylib =
  strptime :: "string \<Rightarrow> string \<Rightarrow> exn + datetime"
  strftime :: "datetime \<Rightarrow> string \<Rightarrow> string"
  isoformat :: "datetime \<Rightarrow> string"

text \<open>\<^verbatim>\<open>str(n)\<close> for a non-negative integer: its decimal digits.\<close>

definition digit_char :: "nat \<Rightarrow> char" where
  "digit_char d = char_of (48 + d)"

function str_nat :: "nat \<Rightarrow> string" where
  "str_nat n = (if n < 10 then [digit_char n] else str_nat (n div 10) @ [digit_char (n mod 10)])"
  by pat_completeness auto
termination
  by (relation "measure (\<lambda>n. n)") auto

declare str_nat.simps [simp del]

section \<open>The external calendar agent\<close>

text \<open>
  Modelled from the spec: the \<^verbatim>\<open>Meeting\<close> and \<^verbatim>\<open>AttendeeResearchResult\<close> records of
  the external \<^verbatim>\<open>CalendarPersonResearchAgent\<close> (module
  \<^verbatim>\<open>agents.calendar_person_research_agent\<close>, not part of the repository's sources):
  a meeting has an id, a title, start and end times (either may be \<^verbatim>\<open>None\<close>), a location
  and a description; a research result has the attendee's identity fields, a free-text
  research summary and a found flag. The field names are the attributes the server reads.
\<close>

record meeting =
  meeting_id :: string
  meeting_title :: string
  start_time :: "datetime option"
  end_time :: "datetime option"
  location :: "string option"
  description :: "string option"

record attendee_rec =
  display_name :: string
  email :: string
  company :: "string option"
  title :: "string option"

record research_result =
  attendee :: attendee_rec
  research_summary :: string
  found_info :: bool

text \<open>
  A call of the agent runs in the agent's own state \<open>'s\<close> (its caches, the calendar and
  the language model behind it), may change it, and returns a value or raises.
\<close>

type_synonym ('s, 'a) call = "'s \<Rightarrow> (exn + 'a) \<times> 's"

text \<open>
  Modelled from the spec: the methods of the external agent that the server calls. The
  server passes \<^verbatim>\<open>max_results\<close> by keyword; the keyword of a search is a decoded JSON
  value, because \<^verbatim>\<open>search_meetings\<close> passes on whatever the request body holds.
\<close>

record 's agent =
  search_meetings_by_keyword :: "json \<Rightarrow> nat \<Rightarrow> ('s, meeting list) call"
  research_meeting_attendees :: "meeting \<Rightarrow> ('s, research_result list) call"
  generate_meeting_summary :: "meeting \<Rightarrow> research_result list \<Rightarrow> ('s, string) call"
  generate_meeting_type_questions :: "meeting \<Rightarrow> research_result list \<Rightarrow> ('s, string) call"
  get_meeting_by_id :: "string \<Rightarrow> ('s, meeting option) call"
  get_next_meeting_info :: "('s, meeting option) call"

definition return_call :: "'a \<Rightarrow> ('s, 'a) call" where
  "return_call a s = (Inr a, s)"

definition raise_call :: "exn \<Rightarrow> ('s, 'a) call" where
  "raise_call e s = (Inl e, s)"

definition bind_call :: "('s, 'a) call \<Rightarrow> ('a \<Rightarrow> ('s, 'b) call) \<Rightarrow> ('s, 'b) call" where
  "bind_call m f s = (case m s of (Inl e, s') \<Rightarrow> (Inl e, s') | (Inr a, s') \<Rightarrow> f a s')"

section \<open>The meeting payload\<close>

definition opt_str :: "string option \<Rightarrow> json" where
  "opt_str v = (case v of None \<Rightarrow> JNull | Some x \<Rightarrow> JStr x)"

text \<open>\<^verbatim>\<open>t.isoformat() if t else None\<close>.\<close>

definition iso_or_none :: "pylib \<Rightarrow> datetime option \<Rightarrow> json" where
  "iso_or_none lib t = (case t of None \<Rightarrow> JNull | Some dt \<Rightarrow> JStr (isoformat lib dt))"

definition attendee_info :: "research_result \<Rightarrow> json" where
  "attendee_info result = JObj
     [(''name'', JStr (display_name (attendee result))),
      (''email'', JStr (email (attendee result))),
      (''company'', opt_str (company (attendee result))),
      (''title'', opt_str (title (attendee result))),
      (''research_summary'', JStr (research_summary result)),
      (''found_info'', JBool (found_info result))]"

text \<open>
  The dict every handler builds for a meeting, after the loop over the research results has
  appended each \<open>attendee_info\<close> to \<^verbatim>\<open>'attendees'\<close> and the two summary entries hold
  \<open>summary\<close> and \<open>questions\<close>.
\<close>

definition meeting_data :: "pylib \<Rightarrow> meeting \<Rightarrow> research_result list \<Rightarrow> json \<Rightarrow> json \<Rightarrow> json" where
  "meeting_data lib m research_results summary questions = JObj
     [(''id'', JStr (meeting_id m)),
      (''title'', JStr (meeting_title m)),
      (''start_time'', iso_or_none lib (start_time m)),
      (''end_time'', iso_or_none lib (end_time m)),
      (''location'', opt_str (location m)),
      (''description'', opt_str (description m)),
      (''attendees'', JArr (map attendee_info research_results)),
      (''research_summary'', summary),
      (''preparation_questions'', questions)]"

text \<open>
  The two generation calls in sequence, as every handler makes them: the summary, then the
  questions; either may raise.
\<close>

definition generate_analysis :: "'s agent \<Rightarrow> meeting \<Rightarrow> research_result list \<Rightarrow> ('s, string \<times> string) call" where
  "generate_analysis ag m research_results =
     bind_call (generate_meeting_summary ag m research_results) (\<lambda>meeting_summary.
     bind_call (generate_meeting_type_questions ag m research_results) (\<lambda>preparation_questions.
     return_call (meeting_summary, preparation_questions)))"

text \<open>
  The body of the loop over the meetings in \<^verbatim>\<open>get_meetings_for_date\<close> and
  \<^verbatim>\<open>search_meetings\<close>: research the attendees (an exception leaves the loop), then
  generate the analysis inside its own \<^verbatim>\<open>try\<close>, whose \<^verbatim>\<open>except\<close> writes the two error
  texts.
\<close>

definition enhance_meeting :: "pylib \<Rightarrow> 's agent \<Rightarrow> meeting \<Rightarrow> ('s, json) call" where
  "enhance_meeting lib ag m =
     bind_call (research_meeting_attendees ag m) (\<lambda>research_results s.
       case generate_analysis ag m research_results s of
         (Inl e, s') \<Rightarrow>
           (Inr (meeting_data lib m research_results
                  (JStr ''Error generating research summary'')
                  (JStr ''Error generating preparation questions'')), s')
       | (Inr (meeting_summary, preparation_questions), s') \<Rightarrow>
           (Inr (meeting_data lib m research_results
                  (JStr meeting_summary) (JStr preparation_questions)), s'))"

fun enhance_meetings :: "pylib \<Rightarrow> 's agent \<Rightarrow> meeting list \<Rightarrow> ('s, json list) call" where
  "enhance_meetings lib ag [] s = (Inr [], s)"
| "enhance_meetings lib ag (m # ms) s =
     (case enhance_meeting lib ag m s of
        (Inl e, s') \<Rightarrow> (Inl e, s')
      | (Inr enhanced_meeting, s') \<Rightarrow>
          (case enhance_meetings lib ag ms s' of
             (Inl e, s'') \<Rightarrow> (Inl e, s'')
           | (Inr enhanced_meetings, s'') \<Rightarrow> (Inr (enhanced_meeting # enhanced_meetings), s'')))"

text \<open>
  The single-meeting handlers (\<^verbatim>\<open>get_meeting_details\<close>, \<^verbatim>\<open>get_next_meeting\<close>) make the
  same calls with no inner \<^verbatim>\<open>try\<close>: an exception of the analysis leaves the handler's
  \<^verbatim>\<open>try\<close> block.
\<close>

definition meeting_details :: "pylib \<Rightarrow> 's agent \<Rightarrow> meeting \<Rightarrow> ('s, json) call" where
  "meeting_details lib ag m =
     bind_call (research_meeting_attendees ag m) (\<lambda>research_results.
     bind_call (generate_analysis ag m research_results) (\<lambda>(meeting_summary, preparation_questions).
     return_call (meeting_data lib m research_results
                    (JStr meeting_summary) (JStr preparation_questions))))"

section \<open>The HTTP handlers\<close>

subsection \<open>\<^verbatim>\<open>GET /health\<close>\<close>

text \<open>\<open>now\<close> is what \<^verbatim>\<open>datetime.now()\<close> returns when the handler runs.\<close>

definition health_check :: "pylib \<Rightarrow> 's agent option \<Rightarrow> datetime \<Rightarrow> http_response" where
  "health_check lib calendar_agent now = jsonify (JObj
     [(''status'', JStr ''healthy''),
      (''agent_available'', JBool (calendar_agent \<noteq> None)),
      (''timestamp'', JStr (isoformat lib now))])"

subsection \<open>\<^verbatim>\<open>GET /meetings/<date_str>\<close>\<close>

definition date_formats :: "pylib \<Rightarrow> datetime \<Rightarrow> string list" where
  "date_formats lib target_date =
     [strftime lib target_date ''%B %d, %Y'',
      strftime lib target_date ''%b %d, %Y'',
      strftime lib target_date ''%m/%d/%Y'',
      strftime lib target_date ''%m/%d'',
      str_nat (day target_date),
      strftime lib target_date ''%Y-%m-%d'']"

text \<open>The list \<^verbatim>\<open>keywords\<close> of strategy 3.\<close>

definition keywords_list :: "string list" where
  "keywords_list = [''meeting'', ''interview'', ''call'', ''appointment'', ''session'',
                    ''discussion'', ''event'']"

text \<open>
  Strategy 2, the loop over the date formats: each search replaces \<open>meetings\<close>, and the
  first non-empty result leaves the loop.
\<close>

fun try_date_formats :: "'s agent \<Rightarrow> string list \<Rightarrow> meeting list \<Rightarrow> ('s, meeting list) call" where
  "try_date_formats ag [] meetings s = (Inr meetings, s)"
| "try_date_formats ag (date_format # rest) meetings s =
     (case search_meetings_by_keyword ag (JStr date_format) 10 s of
        (Inl e, s') \<Rightarrow> (Inl e, s')
      | (Inr found, s') \<Rightarrow>
          if found \<noteq> [] then (Inr found, s') else try_date_formats ag rest found s')"

text \<open>Strategy 3, first loop: every keyword is searched, the results are concatenated.\<close>

fun search_keywords :: "'s agent \<Rightarrow> string list \<Rightarrow> meeting list \<Rightarrow> ('s, meeting list) call" where
  "search_keywords ag [] all_meetings s = (Inr all_meetings, s)"
| "search_keywords ag (keyword # rest) all_meetings s =
     (case search_meetings_by_keyword ag (JStr keyword) 20 s of
        (Inl e, s') \<Rightarrow> (Inl e, s')
      | (Inr keyword_meetings, s') \<Rightarrow>
          search_keywords ag rest (all_meetings @ keyword_meetings) s')"

text \<open>Strategy 3, second loop: a meeting is kept when its title has not been seen.\<close>

fun remove_duplicates :: "meeting list \<Rightarrow> meeting list \<Rightarrow> string set \<Rightarrow> meeting list" where
  "remove_duplicates [] unique_meetings seen_titles = unique_meetings"
| "remove_duplicates (m # rest) unique_meetings seen_titles =
     (if meeting_title m \<notin> seen_titles
      then remove_duplicates rest (unique_meetings @ [m]) (insert (meeting_title m) seen_titles)
      else remove_duplicates rest unique_meetings seen_titles)"

text \<open>Strategy 3, third loop: a meeting is kept when it starts on the target day.\<close>

fun filter_by_date :: "datetime \<Rightarrow> meeting list \<Rightarrow> meeting list \<Rightarrow> meeting list" where
  "filter_by_date target_date [] filtered_meetings = filtered_meetings"
| "filter_by_date target_date (m # rest) filtered_meetings =
     (case start_time m of
        None \<Rightarrow> filter_by_date target_date rest filtered_meetings
      | Some st \<Rightarrow>
          if date st = date target_date
          then filter_by_date target_date rest (filtered_meetings @ [m])
          else filter_by_date target_date rest filtered_meetings)"

text \<open>
  Strategy 3 as a whole. It runs inside its own \<^verbatim>\<open>try\<close>: when a search raises, the
  \<^verbatim>\<open>except\<close> prints and \<open>meetings\<close> keeps the value it had.
\<close>

definition scan_keywords :: "'s agent \<Rightarrow> datetime \<Rightarrow> meeting list \<Rightarrow> 's \<Rightarrow> meeting list \<times> 's" where
  "scan_keywords ag target_date meetings s =
     (case search_keywords ag keywords_list [] s of
        (Inl e, s') \<Rightarrow> (meetings, s')
      | (Inr all_meetings, s') \<Rightarrow>
          (filter_by_date target_date (remove_duplicates all_meetings [] {}) [], s'))"

text \<open>The three strategies in sequence: what \<open>meetings\<close> holds before the processing loop.\<close>

definition find_meetings :: "'s agent \<Rightarrow> string \<Rightarrow> datetime \<Rightarrow> string list \<Rightarrow> ('s, meeting list) call" where
  "find_meetings ag date_str target_date formats =
     bind_call (search_meetings_by_keyword ag (JStr date_str) 10) (\<lambda>meetings.
     bind_call (if meetings = [] then try_date_formats ag formats meetings
                else return_call meetings) (\<lambda>meetings s.
       if meetings = [] then (case scan_keywords ag target_date meetings s of
                                (meetings', s') \<Rightarrow> (Inr meetings', s'))
       else (Inr meetings, s)))"

text \<open>The handler's \<^verbatim>\<open>try\<close> block.\<close>

definition meetings_for_date_try :: "pylib \<Rightarrow> 's agent \<Rightarrow> string \<Rightarrow> ('s, http_response) call" where
  "meetings_for_date_try lib ag date_str =
     (case strptime lib date_str ''%Y-%m-%d'' of
        Inl e \<Rightarrow> raise_call e
      | Inr target_date \<Rightarrow>
          bind_call (find_meetings ag date_str target_date (date_formats lib target_date)) (\<lambda>meetings.
          bind_call (enhance_meetings lib ag meetings) (\<lambda>enhanced_meetings.
          return_call (jsonify (JObj
            [(''date'', JStr date_str),
             (''meetings'', JArr enhanced_meetings),
             (''count'', JNum (int (length enhanced_meetings)))])))))"

definition get_meetings_for_date :: "pylib \<Rightarrow> 's agent option \<Rightarrow> string \<Rightarrow> 's \<Rightarrow> http_response \<times> 's" where
  "get_meetings_for_date lib calendar_agent date_str s =
     (case calendar_agent of
        None \<Rightarrow>
          (jsonify_code (JObj [(''error'', JStr ''Calendar agent not available''),
                               (''meetings'', JArr [])]) 500, s)
      | Some ag \<Rightarrow>
          (case meetings_for_date_try lib ag date_str s of
             (Inl e, s') \<Rightarrow>
               (jsonify_code (JObj [(''error'', JStr (str_exn e)), (''meetings'', JArr [])]) 500, s')
           | (Inr response, s') \<Rightarrow> (response, s')))"

subsection \<open>\<^verbatim>\<open>GET /meeting/<meeting_id>\<close>\<close>

definition meeting_details_try :: "pylib \<Rightarrow> 's agent \<Rightarrow> string \<Rightarrow> ('s, http_response) call" where
  "meeting_details_try lib ag mid =
     bind_call (get_meeting_by_id ag mid) (\<lambda>found.
       case found of
         None \<Rightarrow> return_call (jsonify_code (JObj [(''error'', JStr ''Meeting not found'')]) 404)
       | Some m \<Rightarrow>
           bind_call (meeting_details lib ag m) (\<lambda>details. return_call (jsonify details)))"

definition get_meeting_details :: "pylib \<Rightarrow> 's agent option \<Rightarrow> string \<Rightarrow> 's \<Rightarrow> http_response \<times> 's" where
  "get_meeting_details lib calendar_agent mid s =
     (case calendar_agent of
        None \<Rightarrow> (jsonify_code (JObj [(''error'', JStr ''Calendar agent not available'')]) 500, s)
      | Some ag \<Rightarrow>
          (case meeting_details_try lib ag mid s of
             (Inl e, s') \<Rightarrow> (jsonify_code (JObj [(''error'', JStr (str_exn e))]) 500, s')
           | (Inr response, s') \<Rightarrow> (response, s')))"

subsection \<open>\<^verbatim>\<open>GET /next-meeting\<close>\<close>

definition next_meeting_try :: "pylib \<Rightarrow> 's agent \<Rightarrow> ('s, http_response) call" where
  "next_meeting_try lib ag =
     bind_call (get_next_meeting_info ag) (\<lambda>found.
       case found of
         None \<Rightarrow> return_call (jsonify (JObj [(''message'', JStr ''No upcoming meetings found''),
                                              (''meeting'', JNull)]))
       | Some m \<Rightarrow>
           bind_call (meeting_details lib ag m) (\<lambda>details.
           return_call (jsonify (JObj [(''meeting'', details)]))))"

definition get_next_meeting :: "pylib \<Rightarrow> 's agent option \<Rightarrow> 's \<Rightarrow> http_response \<times> 's" where
  "get_next_meeting lib calendar_agent s =
     (case calendar_agent of
        None \<Rightarrow> (jsonify_code (JObj [(''error'', JStr ''Calendar agent not available'')]) 500, s)
      | Some ag \<Rightarrow>
          (case next_meeting_try lib ag s of
             (Inl e, s') \<Rightarrow> (jsonify_code (JObj [(''error'', JStr (str_exn e))]) 500, s')
           | (Inr response, s') \<Rightarrow> (response, s')))"

subsection \<open>\<^verbatim>\<open>POST /search-meetings\<close>\<close>

text \<open>
  The name of the Python type of a decoded JSON value, and the AttributeError that reading
  an attribute it does not have raises: its text is
  \<^verbatim>\<open>'NoneType' object has no attribute 'get'\<close> for \<^verbatim>\<open>None\<close>, and so on (\<open>CHR 0x27\<close> is
  the apostrophe).
\<close>

fun type_name :: "json \<Rightarrow> string" where
  "type_name JNull = ''NoneType''"
| "type_name (JBool b) = ''bool''"
| "type_name (JNum n) = ''int''"
| "type_name (JStr s) = ''str''"
| "type_name (JArr xs) = ''list''"
| "type_name (JObj kvs) = ''dict''"

definition attribute_error :: "json \<Rightarrow> string \<Rightarrow> exn" where
  "attribute_error v attr =
     Exn ([CHR 0x27] @ type_name v @ [CHR 0x27] @ '' object has no attribute ''
          @ [CHR 0x27] @ attr @ [CHR 0x27])"

text \<open>
  \<^verbatim>\<open>data.get('keyword', '')\<close>: a dict answers with the entry or the default; any other
  decoded value (\<^verbatim>\<open>None\<close>, a list, a string, a number) has no \<^verbatim>\<open>get\<close> and raises
  AttributeError.
\<close>

definition get_keyword :: "json \<Rightarrow> exn + json" where
  "get_keyword data =
     (case data of
        JObj kvs \<Rightarrow> (case map_of kvs ''keyword'' of None \<Rightarrow> Inr (JStr []) | Some v \<Rightarrow> Inr v)
      | _ \<Rightarrow> Inl (attribute_error data ''get''))"

text \<open>
  \<open>payload\<close> is what \<^verbatim>\<open>request.get_json()\<close> does with the request: the decoded body, or
  the exception Flask raises for a body that is not JSON.
\<close>

definition search_meetings_try :: "pylib \<Rightarrow> 's agent \<Rightarrow> exn + json \<Rightarrow> ('s, http_response) call" where
  "search_meetings_try lib ag payload =
     (case payload of
        Inl e \<Rightarrow> raise_call e
      | Inr data \<Rightarrow>
          (case get_keyword data of
             Inl e \<Rightarrow> raise_call e
           | Inr keyword \<Rightarrow>
               if \<not> truthy keyword
               then return_call (jsonify_code (JObj [(''error'', JStr ''Keyword is required'')]) 400)
               else
                 bind_call (search_meetings_by_keyword ag keyword 5) (\<lambda>meetings.
                 bind_call (enhance_meetings lib ag meetings) (\<lambda>enhanced_meetings.
                 return_call (jsonify (JObj
                   [(''keyword'', keyword),
                    (''meetings'', JArr enhanced_meetings),
                    (''count'', JNum (int (length enhanced_meetings)))]))))))"

definition search_meetings :: "pylib \<Rightarrow> 's agent option \<Rightarrow> exn + json \<Rightarrow> 's \<Rightarrow> http_response \<times> 's" where
  "search_meetings lib calendar_agent payload s =
     (case calendar_agent of
        None \<Rightarrow> (jsonify_code (JObj [(''error'', JStr ''Calendar agent not available'')]) 500, s)
      | Some ag \<Rightarrow>
          (case search_meetings_try lib ag payload s of
             (Inl e, s') \<Rightarrow> (jsonify_code (JObj [(''error'', JStr (str_exn e))]) 500, s')
           | (Inr response, s') \<Rightarrow> (response, s')))"

subsection \<open>The routes and the module's state\<close>

datatype endpoint =
    Health_check
  | Get_meetings_for_date
  | Get_meeting_details
  | Get_next_meeting
  | Search_meetings

text \<open>
  The \<^verbatim>\<open>@app.route\<close> decorators of the module, in source order. They are what the module
  itself registers; the rules of the application are \<open>url_map\<close> below.
\<close>

definition routes :: "(string \<times> string list \<times> endpoint) list" where
  "routes =
     [(''/health'', [''GET''], Health_check),
      (''/meetings/<date_str>'', [''GET''], Get_meetings_for_date),
      (''/meeting/<meeting_id>'', [''GET''], Get_meeting_details),
      (''/next-meeting'', [''GET''], Get_next_meeting),
      (''/search-meetings'', [''POST''], Search_meetings)]"

text \<open>The name of a view function, which Flask takes as the endpoint of its rule.\<close>

fun view_name :: "endpoint \<Rightarrow> string" where
  "view_name Health_check = ''health_check''"
| "view_name Get_meetings_for_date = ''get_meetings_for_date''"
| "view_name Get_meeting_details = ''get_meeting_details''"
| "view_name Get_next_meeting = ''get_next_meeting''"
| "view_name Search_meetings = ''search_meetings''"

text \<open>
  Flask, as far as the routes depend on it. \<^verbatim>\<open>app = Flask(__name__)\<close> (line 17) has the
  default static folder, so the constructor registers the rule
  \<^verbatim>\<open>/static/<path:filename>\<close> with endpoint \<^verbatim>\<open>static\<close>. \<^verbatim>\<open>add_url_rule\<close>, which
  \<^verbatim>\<open>@app.route\<close> calls, adds \<^verbatim>\<open>OPTIONS\<close> to the methods of every rule, and the rule adds
  \<^verbatim>\<open>HEAD\<close> when \<^verbatim>\<open>GET\<close> is among them. \<^verbatim>\<open>CORS(app)\<close> registers no rule.
\<close>

record url_rule =
  rule_path :: string
  rule_methods :: "string set"
  rule_endpoint :: string

definition flask_init :: "url_rule list" where
  "flask_init =
     [\<lparr>rule_path = ''/static/<path:filename>'',
       rule_methods = {''GET'', ''HEAD'', ''OPTIONS''},
       rule_endpoint = ''static''\<rparr>]"

definition add_url_rule :: "string \<Rightarrow> string list \<Rightarrow> string \<Rightarrow> url_rule list \<Rightarrow> url_rule list" where
  "add_url_rule path ms ep rules =
     rules @ [\<lparr>rule_path = path,
               rule_methods = set ms \<union> (if ''GET'' \<in> set ms then {''HEAD''} else {})
                                \<union> {''OPTIONS''},
               rule_endpoint = ep\<rparr>]"

text \<open>The rules of \<^verbatim>\<open>app\<close> once the module is loaded, in the order of registration.\<close>

definition url_map :: "url_rule list" where
  "url_map = foldl (\<lambda>rules (path, ms, ep). add_url_rule path ms (view_name ep) rules)
               flask_init routes"

text \<open>A request that Flask has routed to a view function, with the view's arguments.\<close>

datatype request =
    Health datetime
  | Meetings_for_date string
  | Meeting_details string
  | Next_meeting
  | Search "exn + json"

fun endpoint_of :: "request \<Rightarrow> endpoint" where
  "endpoint_of (Health now) = Health_check"
| "endpoint_of (Meetings_for_date date_str) = Get_meetings_for_date"
| "endpoint_of (Meeting_details mid) = Get_meeting_details"
| "endpoint_of Next_meeting = Get_next_meeting"
| "endpoint_of (Search payload) = Search_meetings"

text \<open>
  The module's state: the global \<^verbatim>\<open>calendar_agent\<close> (\<^verbatim>\<open>None\<close> when the agent's
  constructor raised at import), the state of the agent object it refers to, and the
  module's other bindings (\<^verbatim>\<open>app\<close>, the imports, the view functions), which are the
  record's extension \<open>'z\<close>.
\<close>

record 's module_state =
  calendar_agent :: "'s agent option"
  agent_state :: 's

fun view :: "pylib \<Rightarrow> 's agent option \<Rightarrow> request \<Rightarrow> 's \<Rightarrow> http_response \<times> 's" where
  "view lib ca (Health now) s = (health_check lib ca now, s)"
| "view lib ca (Meetings_for_date date_str) s = get_meetings_for_date lib ca date_str s"
| "view lib ca (Meeting_details mid) s = get_meeting_details lib ca mid s"
| "view lib ca Next_meeting s = get_next_meeting lib ca s"
| "view lib ca (Search payload) s = search_meetings lib ca payload s"

text \<open>
  A method of the agent, called inside the module: it runs on the state of the agent object
  and leaves its new state there. \<open>in_module\<close> is the agent with every method so.
\<close>

definition method_in_module ::
  "('s, 'a) call \<Rightarrow> (('s, 'z) module_state_scheme, 'a) call" where
  "method_in_module c g = (case c (agent_state g) of (r, s') \<Rightarrow> (r, g\<lparr>agent_state := s'\<rparr>))"

definition in_module :: "'s agent \<Rightarrow> (('s, 'z) module_state_scheme) agent" where
  "in_module ag =
     \<lparr>search_meetings_by_keyword = (\<lambda>k n. method_in_module (search_meetings_by_keyword ag k n)),
      research_meeting_attendees = (\<lambda>m. method_in_module (research_meeting_attendees ag m)),
      generate_meeting_summary = (\<lambda>m rs. method_in_module (generate_meeting_summary ag m rs)),
      generate_meeting_type_questions =
        (\<lambda>m rs. method_in_module (generate_meeting_type_questions ag m rs)),
      get_meeting_by_id = (\<lambda>mid. method_in_module (get_meeting_by_id ag mid)),
      get_next_meeting_info = method_in_module (get_next_meeting_info ag)\<rparr>"

text \<open>
  Handling a request: the view function runs in the module's state, where it reads the
  global \<^verbatim>\<open>calendar_agent\<close> and calls its methods.
\<close>

definition handle ::
  "pylib \<Rightarrow> request \<Rightarrow> ('s, 'z) module_state_scheme
     \<Rightarrow> http_response \<times> ('s, 'z) module_state_scheme" where
  "handle lib req g = view lib (map_option in_module (calendar_agent g)) req g"

text \<open>
  What Flask sends for a request with method \<open>http_method\<close> that matches the rule of a view
  function. A method that the rule does not have is answered by Flask with its HTML page
  405; \<^verbatim>\<open>OPTIONS\<close> is answered by Flask itself, with an empty body; otherwise the view
  function runs, and for \<^verbatim>\<open>HEAD\<close> the body of its response is not sent. (Static files are
  served by Flask's own view.)
\<close>

datatype content = Json_content json | Empty_content | Html_content

record full_response =
  response_status :: nat
  response_content :: content

definition allowed_methods :: "endpoint \<Rightarrow> string set" where
  "allowed_methods ep =
     (case find (\<lambda>r. rule_endpoint r = view_name ep) url_map of
        None \<Rightarrow> {}
      | Some r \<Rightarrow> rule_methods r)"

definition flask_respond ::
  "pylib \<Rightarrow> string \<Rightarrow> request \<Rightarrow> ('s, 'z) module_state_scheme
     \<Rightarrow> full_response \<times> ('s, 'z) module_state_scheme" where
  "flask_respond lib http_method req g =
     (if http_method \<notin> allowed_methods (endpoint_of req)
      then (\<lparr>response_status = 405, response_content = Html_content\<rparr>, g)
      else if http_method = ''OPTIONS''
      then (\<lparr>response_status = 200, response_content = Empty_content\<rparr>, g)
      else (case handle lib req g of
              (response, g') \<Rightarrow>
                (\<lparr>response_status = status response,
                  response_content = (if http_method = ''HEAD'' then Empty_content
                                      else Json_content (body response))\<rparr>, g')))"

section \<open>The LangChain wrapper\<close>

text \<open>
  \<^verbatim>\<open>langchain_agent.py\<close>. The closures of \<^verbatim>\<open>_create_tools\<close> are named by a datatype;
  \<open>operation_of\<close> is the method of the wrapped \<^verbatim>\<open>CalendarAgent\<close> that each closure calls
  (\<^verbatim>\<open>search_meetings_tool\<close> with \<^verbatim>\<open>max_results=5\<close>).
\<close>

datatype tool_func =
    get_next_meeting_tool
  | search_meetings_tool
  | get_meetings_for_date_tool
  | get_meeting_by_id_tool

datatype calendar_operation =
    Op_get_next_meeting_info
  | Op_search_meetings_by_keyword nat
  | Op_get_events_for_day
  | Op_get_meeting_info_by_id

fun operation_of :: "tool_func \<Rightarrow> calendar_operation" where
  "operation_of get_next_meeting_tool = Op_get_next_meeting_info"
| "operation_of search_meetings_tool = Op_search_meetings_by_keyword 5"
| "operation_of get_meetings_for_date_tool = Op_get_events_for_day"
| "operation_of get_meeting_by_id_tool = Op_get_meeting_info_by_id"

record tool =
  name :: string
  func :: tool_func
  tool_description :: string

definition create_tools :: "tool list" where
  "create_tools =
     [\<lparr>name = ''get_next_meeting'', func = get_next_meeting_tool,
       tool_description = ''Get information about the next upcoming meeting including title, attendees, and description''\<rparr>,
      \<lparr>name = ''get_meetings_for_date'', func = get_meetings_for_date_tool,
       tool_description = ''Get all meetings for a specific date. Input should be in YYYY-MM-DD format. This is the PRIMARY tool to use when asked for meetings on a specific date.''\<rparr>,
      \<lparr>name = ''search_meetings'', func = search_meetings_tool,
       tool_description = ''Search for meetings by keyword in title or description. Useful for finding specific types of meetings like 'interview', 'standup', 'review', etc.''\<rparr>,
      \<lparr>name = ''get_meeting_by_id'', func = get_meeting_by_id_tool,
       tool_description = ''Get detailed information about a specific meeting using its event ID''\<rparr>]"

text \<open>\<^verbatim>\<open>sep.join(xs)\<close>.\<close>

fun join :: "string \<Rightarrow> string list \<Rightarrow> string" where
  "join sep [] = []"
| "join sep [x] = x"
| "join sep (x # y # ys) = x @ sep @ join sep (y # ys)"

text \<open>
  The lines of \<^verbatim>\<open>prompt_template\<close> that fix the ReAct format (the template's other lines
  are the greeting and the advice on names and titles).
\<close>

definition react_format :: "string list" where
  "react_format =
     [''Question: the input question you must answer'',
      ''Thought: you should always think about what to do'',
      ''Action: the action to take, should be one of [{tool_names}]'',
      ''Action Input: the input to the action'',
      ''Observation: the result of the action'',
      ''... (this Thought/Action/Action Input/Observation can repeat N times)'',
      ''Thought: I now know the final answer'',
      ''Final Answer: the final answer to the original input question'']"

record prompt_template =
  template_format :: "string list"
  input_variables :: "string list"
  partial_variables :: "(string \<times> string) list"

text \<open>\<^verbatim>\<open>_create_agent\<close>: the arguments of \<^verbatim>\<open>create_react_agent\<close>.\<close>

record react_agent =
  agent_tools :: "tool list"
  prompt :: prompt_template

definition create_agent :: "tool list \<Rightarrow> react_agent" where
  "create_agent tools =
     \<lparr>agent_tools = tools,
      prompt = \<lparr>template_format = react_format,
                input_variables = [''input'', ''agent_scratchpad''],
                partial_variables =
                  [(''tools'', join [CHR 0x0A] (map (\<lambda>t. name t @ '': '' @ tool_description t) tools)),
                   (''tool_names'', join '', '' (map name tools))]\<rparr>\<rparr>"

text \<open>\<^verbatim>\<open>run\<close>: the arguments of the \<^verbatim>\<open>AgentExecutor\<close> it builds for each query.\<close>

record agent_executor =
  executor_agent :: react_agent
  executor_tools :: "tool list"
  verbose :: bool
  max_iterations :: nat

record langchain_calendar_agent =
  self_tools :: "tool list"
  self_agent :: react_agent

text \<open>\<^verbatim>\<open>__init__\<close>: \<^verbatim>\<open>self.tools = self._create_tools()\<close>, then \<^verbatim>\<open>self.agent = self._create_agent()\<close>.\<close>

definition init_langchain_calendar_agent :: langchain_calendar_agent where
  "init_langchain_calendar_agent =
     \<lparr>self_tools = create_tools, self_agent = create_agent create_tools\<rparr>"

definition run_executor :: "langchain_calendar_agent \<Rightarrow> agent_executor" where
  "run_executor self =
     \<lparr>executor_agent = self_agent self, executor_tools = self_tools self,
      verbose = True, max_iterations = 5\<rparr>"

section \<open>Recording the searches of a run\<close>

text \<open>
  To speak about the order of the searches a handler makes, an agent is wrapped so that it
  writes every call of \<^verbatim>\<open>search_meetings_by_keyword\<close> (keyword, \<^verbatim>\<open>max_results\<close> and what
  the call returned or raised) to a log that it carries beside its state. The wrapped agent
  answers every call as the agent itself does.
\<close>

type_synonym search_event = "json \<times> nat \<times> (exn + meeting list)"

definition lift_call :: "('s, 'a) call \<Rightarrow> ('s \<times> search_event list, 'a) call" where
  "lift_call c = (\<lambda>(s, log). case c s of (r, s') \<Rightarrow> (r, (s', log)))"

definition recording :: "'s agent \<Rightarrow> ('s \<times> search_event list) agent" where
  "recording ag =
     \<lparr>search_meetings_by_keyword = (\<lambda>k n (s, log).
        case search_meetings_by_keyword ag k n s of (r, s') \<Rightarrow> (r, (s', log @ [(k, n, r)]))),
      research_meeting_attendees = (\<lambda>m. lift_call (research_meeting_attendees ag m)),
      generate_meeting_summary = (\<lambda>m rs. lift_call (generate_meeting_summary ag m rs)),
      generate_meeting_type_questions = (\<lambda>m rs. lift_call (generate_meeting_type_questions ag m rs)),
      get_meeting_by_id = (\<lambda>mid. lift_call (get_meeting_by_id ag mid)),
      get_next_meeting_info = lift_call (get_next_meeting_info ag)\<rparr>"

fun event_call :: "search_event \<Rightarrow> json \<times> nat" where
  "event_call (k, n, r) = (k, n)"

fun event_result :: "search_event \<Rightarrow> exn + meeting list" where
  "event_result (k, n, r) = r"

fun event_meetings :: "search_event \<Rightarrow> meeting list" where
  "event_meetings (k, n, Inr ms) = ms"
| "event_meetings (k, n, Inl e) = []"

text \<open>
  The searches that \<^verbatim>\<open>get_meetings_for_date\<close> may make, in order: the literal date string,
  the six reformatted date strings (\<^verbatim>\<open>max_results=10\<close>), the seven generic keywords
  (\<^verbatim>\<open>max_results=20\<close>).
\<close>

definition search_plan :: "pylib \<Rightarrow> string \<Rightarrow> datetime \<Rightarrow> (json \<times> nat) list" where
  "search_plan lib date_str target_date =
     (JStr date_str, 10) # map (\<lambda>f. (JStr f, 10)) (date_formats lib target_date)
       @ map (\<lambda>k. (JStr k, 20)) keywords_list"

text \<open>
  The fallback cascade in the words of its description: the searches are made in the order
  of the plan; among the first \<open>n\<close> planned searches (the date strings), the next one is
  made exactly when the one before returned an empty list; among the others (the generic
  keywords), the next one is made exactly when the one before returned; nothing is searched
  after a search that raised.
\<close>

fun cascade :: "nat \<Rightarrow> (json \<times> nat) list \<Rightarrow> search_event list \<Rightarrow> bool" where
  "cascade n [] evs = (evs = [])"
| "cascade n (c # plan) [] = False"
| "cascade n (c # plan) (ev # evs) =
     (event_call ev = c \<and>
      (case event_result ev of
         Inl e \<Rightarrow> evs = []
       | Inr ms \<Rightarrow> if 0 < n \<and> ms \<noteq> [] then evs = [] else cascade (n - 1) plan evs))"

section \<open>A concrete library and agent\<close>

text \<open>
  An instance of the parameters, on which the theorems below are evaluated: the day of the
  comments in the source, 24 September 2025, and an agent that counts its calls, finds
  nothing under any date string and meetings under three of the generic keywords, and whose
  summary generation raises for one meeting.
\<close>

definition sample_day :: datetime where
  "sample_day = \<lparr>year = 2025, month = 9, day = 24, hour = 0, minute = 0, second = 0,
                 microsecond = 0\<rparr>"

text \<open>
  A stand-in for the library: it parses the one date string of the sample day, formats a
  date in the five formats of the handler, and writes the ISO format of a datetime.
\<close>

definition month_names :: "string list" where
  "month_names = [''January'', ''February'', ''March'', ''April'', ''May'', ''June'', ''July'',
                  ''August'', ''September'', ''October'', ''November'', ''December'']"

definition pad :: "nat \<Rightarrow> nat \<Rightarrow> string" where
  "pad w n = replicate (w - length (str_nat n)) (CHR ''0'') @ str_nat n"

definition sample_strftime :: "datetime \<Rightarrow> string \<Rightarrow> string" where
  "sample_strftime dt fmt =
     (if fmt = ''%B %d, %Y''
      then month_names ! (month dt - 1) @ '' '' @ pad 2 (day dt) @ '', '' @ pad 4 (year dt)
      else if fmt = ''%b %d, %Y''
      then take 3 (month_names ! (month dt - 1)) @ '' '' @ pad 2 (day dt) @ '', ''
             @ pad 4 (year dt)
      else if fmt = ''%m/%d/%Y''
      then pad 2 (month dt) @ ''/'' @ pad 2 (day dt) @ ''/'' @ pad 4 (year dt)
      else if fmt = ''%m/%d''
      then pad 2 (month dt) @ ''/'' @ pad 2 (day dt)
      else pad 4 (year dt) @ ''-'' @ pad 2 (month dt) @ ''-'' @ pad 2 (day dt))"

definition sample_isoformat :: "datetime \<Rightarrow> string" where
  "sample_isoformat dt =
     pad 4 (year dt) @ ''-'' @ pad 2 (month dt) @ ''-'' @ pad 2 (day dt) @ ''T''
       @ pad 2 (hour dt) @ '':'' @ pad 2 (minute dt) @ '':'' @ pad 2 (second dt)
       @ (if microsecond dt = 0 then [] else ''.'' @ pad 6 (microsecond dt))"

definition sample_lib :: pylib where
  "sample_lib =
     \<lparr>strptime = (\<lambda>s fmt. if s = ''2025-09-24'' \<and> fmt = ''%Y-%m-%d'' then Inr sample_day
                          else Inl (Exn ''time data does not match format'')),
      strftime = sample_strftime,
      isoformat = sample_isoformat\<rparr>"

definition sample_meeting :: "string \<Rightarrow> string \<Rightarrow> datetime option \<Rightarrow> meeting" where
  "sample_meeting mid ttl st =
     \<lparr>meeting_id = mid, meeting_title = ttl, start_time = st, end_time = None,
      location = None, description = Some ''Weekly''\<rparr>"

definition other_day :: datetime where
  "other_day = sample_day\<lparr>day := 25\<rparr>"

definition sample_result :: research_result where
  "sample_result =
     \<lparr>attendee = \<lparr>display_name = ''Ada'', email = ''ada@example.org'', company = None,
                  title = Some ''Engineer''\<rparr>,
      research_summary = ''Known'', found_info = True\<rparr>"

definition sample_agent :: "nat agent" where
  "sample_agent =
     \<lparr>search_meetings_by_keyword = (\<lambda>k n s.
        (Inr (if k = JStr ''meeting''
              then [sample_meeting ''a1'' ''Sync'' (Some sample_day),
                    sample_meeting ''b1'' ''Review'' (Some other_day)]
              else if k = JStr ''interview''
              then [sample_meeting ''a2'' ''Sync'' (Some sample_day),
                    sample_meeting ''c1'' ''Interview'' None]
              else if k = JStr ''call''
              then [sample_meeting ''d1'' ''Call'' (Some sample_day)]
              else []), Suc s)),
      research_meeting_attendees = (\<lambda>m s. (Inr [sample_result], Suc s)),
      generate_meeting_summary = (\<lambda>m rs s.
        (if meeting_title m = ''Call'' then Inl (Exn ''model unavailable'') else Inr ''Summary'',
         Suc s)),
      generate_meeting_type_questions = (\<lambda>m rs s. (Inr ''Questions'', Suc s)),
      get_meeting_by_id = (\<lambda>mid s.
        (Inr (if mid = ''a1'' then Some (sample_meeting ''a1'' ''Sync'' (Some sample_day))
              else if mid = ''d1'' then Some (sample_meeting ''d1'' ''Call'' (Some sample_day))
              else None), Suc s)),
      get_next_meeting_info = (\<lambda>s.
        (Inr (Some (sample_meeting ''d1'' ''Call'' (Some sample_day))), Suc s))\<rparr>"

text \<open>
  Three variants of the agent: one whose search raises under the keyword \<^verbatim>\<open>call\<close>, one
  that knows no upcoming meeting, and one that finds a meeting under the second reformatted
  date string and nothing else.
\<close>

definition raising_agent :: "nat agent" where
  "raising_agent = sample_agent
     \<lparr>search_meetings_by_keyword := (\<lambda>k n s.
        if k = JStr ''call'' then (Inl (Exn ''calendar unavailable''), Suc s)
        else search_meetings_by_keyword sample_agent k n s)\<rparr>"

definition idle_agent :: "nat agent" where
  "idle_agent = sample_agent\<lparr>get_next_meeting_info := (\<lambda>s. (Inr None, Suc s))\<rparr>"

definition date_agent :: "nat agent" where
  "date_agent = sample_agent
     \<lparr>search_meetings_by_keyword := (\<lambda>k n s.
        (Inr (if k = JStr ''Sep 24, 2025''
              then [sample_meeting ''e1'' ''Lunch'' (Some other_day)] else []), Suc s))\<rparr>"

section \<open>The shape of a meeting object\<close>

text \<open>
  The field lists of a meeting object and of an attendee entry, and what it is for a JSON
  value to be the meeting object of a meeting \<open>m\<close>: exactly the nine fields, the two times
  in ISO format when \<open>m\<close> has them and null otherwise, and attendee entries with exactly the
  six fields.
\<close>

definition meeting_fields :: "string list" where
  "meeting_fields = [''id'', ''title'', ''start_time'', ''end_time'', ''location'',
                     ''description'', ''attendees'', ''research_summary'',
                     ''preparation_questions'']"

definition attendee_fields :: "string list" where
  "attendee_fields = [''name'', ''email'', ''company'', ''title'', ''research_summary'',
                      ''found_info'']"

definition meeting_object :: "pylib \<Rightarrow> meeting \<Rightarrow> json \<Rightarrow> bool" where
  "meeting_object lib m j =
     (dict_keys j = meeting_fields
      \<and> field j ''start_time''
          = Some (case start_time m of None \<Rightarrow> JNull | Some t \<Rightarrow> JStr (isoformat lib t))
      \<and> field j ''end_time''
          = Some (case end_time m of None \<Rightarrow> JNull | Some t \<Rightarrow> JStr (isoformat lib t))
      \<and> (case field j ''attendees'' of
            Some (JArr as) \<Rightarrow> list_all (\<lambda>a. dict_keys a = attendee_fields) as
          | _ \<Rightarrow> False))"

section \<open>The keyword scan in the words of its description\<close>

text \<open>
  A meeting is on the target day when it has a start time whose date is the target's; the
  first occurrences of a list of meetings are the meetings that no earlier meeting of the
  list shares its title with, in the order of the list.
\<close>

definition on_date :: "datetime \<Rightarrow> meeting \<Rightarrow> bool" where
  "on_date target_date m =
     (case start_time m of None \<Rightarrow> False | Some st \<Rightarrow> date st = date target_date)"

definition first_occurrences :: "meeting list \<Rightarrow> meeting list" where
  "first_occurrences all_meetings =
     map (\<lambda>i. all_meetings ! i)
       (filter (\<lambda>i. meeting_title (all_meetings ! i)
                       \<notin> meeting_title ` set (take i all_meetings))
          [0..<length all_meetings])"

text \<open>The searches that the concrete agent answers in a run for 24 September 2025.\<close>

definition sample_log :: "search_event list" where
  "sample_log =
     [(JStr ''2025-09-24'', 10, Inr []),
      (JStr ''September 24, 2025'', 10, Inr []),
      (JStr ''Sep 24, 2025'', 10, Inr []),
      (JStr ''09/24/2025'', 10, Inr []),
      (JStr ''09/24'', 10, Inr []),
      (JStr ''24'', 10, Inr []),
      (JStr ''2025-09-24'', 10, Inr []),
      (JStr ''meeting'', 20, Inr [sample_meeting ''a1'' ''Sync'' (Some sample_day),
                                  sample_meeting ''b1'' ''Review'' (Some other_day)]),
      (JStr ''interview'', 20, Inr [sample_meeting ''a2'' ''Sync'' (Some sample_day),
                                    sample_meeting ''c1'' ''Interview'' None]),
      (JStr ''call'', 20, Inr [sample_meeting ''d1'' ''Call'' (Some sample_day)]),
      (JStr ''appointment'', 20, Inr []),
      (JStr ''session'', 20, Inr []),
      (JStr ''discussion'', 20, Inr []),
      (JStr ''event'', 20, Inr [])]"

text \<open>The searches of the same run with the agent whose search raises under \<^verbatim>\<open>call\<close>.\<close>

definition raising_log :: "search_event list" where
  "raising_log = take 9 sample_log @ [(JStr ''call'', 20, Inl (Exn ''calendar unavailable''))]"

text \<open>The searches of the same run with the agent that finds a meeting under a date string.\<close>

definition date_log :: "search_event list" where
  "date_log =
     [(JStr ''2025-09-24'', 10, Inr []),
      (JStr ''September 24, 2025'', 10, Inr []),
      (JStr ''Sep 24, 2025'', 10, Inr [sample_meeting ''e1'' ''Lunch'' (Some other_day)])]"

section \<open>What the methods of the agent preserve\<close>

text \<open>
  A property \<open>P\<close> of states is preserved by a call when the call leaves every state that
  has it in a state that has it, whatever it returns or raises; by an agent when each of
  its methods preserves it.
\<close>

definition preserves :: "('s \<Rightarrow> bool) \<Rightarrow> ('s, 'a) call \<Rightarrow> bool" where
  "preserves P c = (\<forall>s. P s \<longrightarrow> P (snd (c s)))"

definition agent_preserves :: "('s \<Rightarrow> bool) \<Rightarrow> 's agent \<Rightarrow> bool" where
  "agent_preserves P ag =
     ((\<forall>k n. preserves P (search_meetings_by_keyword ag k n))
      \<and> (\<forall>m. preserves P (research_meeting_attendees ag m))
      \<and> (\<forall>m rs. preserves P (generate_meeting_summary ag m rs))
      \<and> (\<forall>m rs. preserves P (generate_meeting_type_questions ag m rs))
      \<and> (\<forall>mid. preserves P (get_meeting_by_id ag mid))
      \<and> preserves P (get_next_meeting_info ag))"

section \<open>Properties\<close>

subsection \<open>The health check\<close>

text \<open>
  C9. \<^verbatim>\<open>GET /health\<close> answers 200 with \<^verbatim>\<open>status\<close> equal to \<^verbatim>\<open>'healthy'\<close> in every state of
  the module, also when the agent failed to initialise (\<open>calendar_agent g = None\<close>); whether
  the agent is there shows in the boolean \<^verbatim>\<open>agent_available\<close> alone.
\<close>

theorem health_check_always_healthy:
  "status (fst (handle lib (Health now) g)) = 200
   \<and> field (body (fst (handle lib (Health now) g))) ''status'' = Some (JStr ''healthy'')
   \<and> field (body (fst (handle lib (Health now) g))) ''agent_available''
       = Some (JBool (calendar_agent g \<noteq> None))"
  by (simp add: handle_def health_check_def jsonify_def)

subsection \<open>The count of a list response\<close>

text \<open>
  C10. In every successful (200) response of \<^verbatim>\<open>GET /meetings/<date_str>\<close> and of
  \<^verbatim>\<open>POST /search-meetings\<close>, the field \<^verbatim>\<open>count\<close> is the length of the array \<^verbatim>\<open>meetings\<close>.
\<close>

theorem count_is_length_of_meetings:
  "(status (fst (get_meetings_for_date lib ca date_str s)) = 200 \<longrightarrow>
     (\<exists>ems. field (body (fst (get_meetings_for_date lib ca date_str s))) ''meetings''
               = Some (JArr ems)
          \<and> field (body (fst (get_meetings_for_date lib ca date_str s))) ''count''
               = Some (JNum (int (length ems)))))
   \<and> (status (fst (search_meetings lib ca payload s)) = 200 \<longrightarrow>
     (\<exists>ems. field (body (fst (search_meetings lib ca payload s))) ''meetings''
               = Some (JArr ems)
          \<and> field (body (fst (search_meetings lib ca payload s))) ''count''
               = Some (JNum (int (length ems)))))"
  by (auto simp: get_meetings_for_date_def meetings_for_date_try_def search_meetings_def
      search_meetings_try_def jsonify_code_def jsonify_def bind_call_def return_call_def
      raise_call_def split: option.splits sum.splits prod.splits if_splits)

theorem count_is_length_of_meetings_witness:
  "status (fst (get_meetings_for_date sample_lib (Some sample_agent) ''2025-09-24'' 0)) = 200
   \<and> (\<exists>ems. field (body (fst (get_meetings_for_date sample_lib (Some sample_agent)
                 ''2025-09-24'' 0))) ''meetings'' = Some (JArr ems)
          \<and> field (body (fst (get_meetings_for_date sample_lib (Some sample_agent)
                 ''2025-09-24'' 0))) ''count'' = Some (JNum (int (length ems))))
   \<and> status (fst (search_meetings sample_lib (Some sample_agent)
                 (Inr (JObj [(''keyword'', JStr ''call'')])) 0)) = 200
   \<and> (\<exists>ems. field (body (fst (search_meetings sample_lib (Some sample_agent)
                 (Inr (JObj [(''keyword'', JStr ''call'')])) 0))) ''meetings'' = Some (JArr ems)
          \<and> field (body (fst (search_meetings sample_lib (Some sample_agent)
                 (Inr (JObj [(''keyword'', JStr ''call'')])) 0))) ''count''
               = Some (JNum (int (length ems))))"
proof -
  have a: "status (fst (get_meetings_for_date sample_lib (Some sample_agent) ''2025-09-24'' 0))
             = 200"
    by code_simp
  have b: "status (fst (search_meetings sample_lib (Some sample_agent)
             (Inr (JObj [(''keyword'', JStr ''call'')])) 0)) = 200"
    by code_simp
  show ?thesis
    using a b
      count_is_length_of_meetings [of sample_lib "Some sample_agent" "''2025-09-24''" 0
        "Inr (JObj [(''keyword'', JStr ''call'')])"]
    by blast
qed

subsection \<open>Helper facts about the handlers\<close>

lemma fst_handle:
  "fst (handle lib req g) = fst (view lib (map_option in_module (calendar_agent g)) req g)"
  by (simp add: handle_def)

lemmas handler_defs =
  health_check_def get_meetings_for_date_def meetings_for_date_try_def
  get_meeting_details_def meeting_details_try_def meeting_details_def
  get_next_meeting_def next_meeting_try_def search_meetings_def search_meetings_try_def
  jsonify_code_def jsonify_def bind_call_def return_call_def raise_call_def

lemma view_is_object: "is_object (body (fst (view lib ca req s)))"
  by (cases req)
     (auto simp: handler_defs meeting_data_def
        split: option.splits sum.splits prod.splits if_splits)

lemma view_status: "status (fst (view lib ca req s)) \<in> {200, 400, 404, 500}"
  by (cases req)
     (auto simp: handler_defs split: option.splits sum.splits prod.splits if_splits)

lemma view_error_body:
  "status (fst (view lib ca req s)) \<noteq> 200 \<Longrightarrow>
   \<exists>msg. field (body (fst (view lib ca req s))) ''error'' = Some (JStr msg)"
  by (cases req)
     (auto simp: handler_defs split: option.splits sum.splits prod.splits if_splits)

lemma view_404:
  "status (fst (view lib ca req s)) = 404 \<longleftrightarrow>
   (\<exists>mid ag s1. req = Meeting_details mid \<and> ca = Some ag
                 \<and> get_meeting_by_id ag mid s = (Inr None, s1))"
  by (cases req)
     (auto simp: handler_defs split: option.splits sum.splits prod.splits if_splits)

lemma view_400:
  "status (fst (view lib ca req s)) = 400 \<longleftrightarrow>
   (\<exists>data kw ag. req = Search (Inr data) \<and> ca = Some ag
                  \<and> get_keyword data = Inr kw \<and> \<not> truthy kw)"
  by (cases req)
     (auto simp: handler_defs split: option.splits sum.splits prod.splits if_splits)

lemma view_no_agent:
  "endpoint_of req \<noteq> Health_check \<Longrightarrow> status (fst (view lib None req s)) = 500"
  by (cases req)
     (auto simp: get_meetings_for_date_def get_meeting_details_def get_next_meeting_def
        search_meetings_def jsonify_code_def)

lemma meeting_data_object: "meeting_object lib m (meeting_data lib m rs x y)"
  by (simp add: meeting_object_def meeting_data_def meeting_fields_def iso_or_none_def
      attendee_info_def attendee_fields_def list_all_iff)

lemma enhance_meeting_object:
  "enhance_meeting lib ag m s = (Inr em, s') \<Longrightarrow> meeting_object lib m em"
  by (auto simp: enhance_meeting_def bind_call_def meeting_data_object
      split: prod.splits sum.splits)

lemma enhance_meetings_objects:
  "enhance_meetings lib ag ms s = (Inr ems, s') \<Longrightarrow> list_all2 (meeting_object lib) ms ems"
proof (induction ms arbitrary: s ems)
  case Nil
  then show ?case by simp
next
  case (Cons m ms)
  then show ?case
    by (auto split: prod.splits sum.splits dest: enhance_meeting_object)
qed

lemma meeting_details_object:
  "meeting_details lib ag m s = (Inr j, s') \<Longrightarrow> meeting_object lib m j"
  by (auto simp: meeting_details_def bind_call_def return_call_def meeting_data_object
      split: prod.splits sum.splits)

subsection \<open>The tools of the LangChain wrapper\<close>

text \<open>
  C4. The LangChain wrapper registers exactly four tools, named \<^verbatim>\<open>get_next_meeting\<close>,
  \<^verbatim>\<open>get_meetings_for_date\<close>, \<^verbatim>\<open>search_meetings\<close> and \<^verbatim>\<open>get_meeting_by_id\<close>, one per
  calendar operation (next meeting, the events of a day, keyword search, meeting by id); the
  executor that \<^verbatim>\<open>run\<close> builds has these tools, the agent made from them with the ReAct
  format (whose \<^verbatim>\<open>tool_names\<close> are the four names), and \<^verbatim>\<open>max_iterations=5\<close>.
\<close>

theorem langchain_registers_four_tools:
  "map name (self_tools init_langchain_calendar_agent)
     = [''get_next_meeting'', ''get_meetings_for_date'', ''search_meetings'',
        ''get_meeting_by_id'']
   \<and> length (self_tools init_langchain_calendar_agent) = 4
   \<and> map (operation_of \<circ> func) (self_tools init_langchain_calendar_agent)
     = [Op_get_next_meeting_info, Op_get_events_for_day, Op_search_meetings_by_keyword 5,
        Op_get_meeting_info_by_id]
   \<and> executor_tools (run_executor init_langchain_calendar_agent)
     = self_tools init_langchain_calendar_agent
   \<and> agent_tools (executor_agent (run_executor init_langchain_calendar_agent))
     = self_tools init_langchain_calendar_agent
   \<and> template_format (prompt (executor_agent (run_executor init_langchain_calendar_agent)))
     = react_format
   \<and> map_of (partial_variables (prompt (executor_agent
        (run_executor init_langchain_calendar_agent)))) ''tool_names''
     = Some ''get_next_meeting, get_meetings_for_date, search_meetings, get_meeting_by_id''
   \<and> max_iterations (run_executor init_langchain_calendar_agent) = 5"
  by (simp add: init_langchain_calendar_agent_def run_executor_def create_tools_def
      create_agent_def)

subsection \<open>The routes\<close>

lemma url_map_rules:
  "map (\<lambda>r. (rule_path r, rule_endpoint r)) url_map =
     [(''/static/<path:filename>'', ''static''),
      (''/health'', ''health_check''),
      (''/meetings/<date_str>'', ''get_meetings_for_date''),
      (''/meeting/<meeting_id>'', ''get_meeting_details''),
      (''/next-meeting'', ''get_next_meeting''),
      (''/search-meetings'', ''search_meetings'')]"
  by (simp add: url_map_def routes_def add_url_rule_def flask_init_def)

lemma url_map_methods:
  "map rule_methods url_map =
     [{''GET'', ''HEAD'', ''OPTIONS''}, {''GET'', ''HEAD'', ''OPTIONS''},
      {''GET'', ''HEAD'', ''OPTIONS''}, {''GET'', ''HEAD'', ''OPTIONS''},
      {''GET'', ''HEAD'', ''OPTIONS''}, {''POST'', ''OPTIONS''}]"
  by (simp add: url_map_def routes_def add_url_rule_def flask_init_def insert_commute)

lemma allowed_methods_eq:
  "allowed_methods ep =
     (if ep = Search_meetings then {''POST'', ''OPTIONS''} else {''GET'', ''HEAD'', ''OPTIONS''})"
  by (cases ep)
     (simp_all add: allowed_methods_def url_map_def routes_def add_url_rule_def flask_init_def
        insert_commute)

text \<open>
  C6, as the code has it. The application has a sixth rule, \<^verbatim>\<open>/static/<path:filename>\<close>,
  which the constructor \<^verbatim>\<open>Flask(__name__)\<close> registers, and a request with the method
  \<^verbatim>\<open>OPTIONS\<close> on a route of the module is answered by Flask with an empty body, which is
  not JSON.
\<close>

theorem static_rule_and_options:
  "length url_map = 6
   \<and> rule_path (hd url_map) = ''/static/<path:filename>''
   \<and> rule_endpoint (hd url_map) = ''static''
   \<and> fst (flask_respond sample_lib ''OPTIONS'' (Health sample_day)
            \<lparr>calendar_agent = Some sample_agent, agent_state = 0\<rparr>)
       = \<lparr>response_status = 200, response_content = Empty_content\<rparr>"
  by (simp add: url_map_def routes_def add_url_rule_def flask_init_def flask_respond_def
      allowed_methods_eq)

text \<open>
  C6, amended. The decorators of the module register exactly five routes: \<^verbatim>\<open>GET /health\<close>,
  \<^verbatim>\<open>GET /meetings/<date_str>\<close>, \<^verbatim>\<open>GET /meeting/<meeting_id>\<close>, \<^verbatim>\<open>GET /next-meeting\<close> and
  \<^verbatim>\<open>POST /search-meetings\<close>. The application has six rules: the static rule of the Flask
  constructor and these five, each with \<^verbatim>\<open>OPTIONS\<close> added and with \<^verbatim>\<open>HEAD\<close> added where it
  has \<^verbatim>\<open>GET\<close>. Every response that a view function returns has a JSON object as its body,
  and this is what is sent for a request with the declared method; the answers of Flask
  itself on these routes (to \<^verbatim>\<open>OPTIONS\<close>, to \<^verbatim>\<open>HEAD\<close>, and 405 to a method that the rule
  does not have) have no JSON body.
\<close>

theorem five_routes_json_bodies:
  "map (\<lambda>(rule, methods, ep). (methods, rule)) routes =
     [([''GET''], ''/health''), ([''GET''], ''/meetings/<date_str>''),
      ([''GET''], ''/meeting/<meeting_id>''), ([''GET''], ''/next-meeting''),
      ([''POST''], ''/search-meetings'')]
   \<and> map (\<lambda>r. (rule_path r, rule_endpoint r)) url_map =
     [(''/static/<path:filename>'', ''static''),
      (''/health'', ''health_check''),
      (''/meetings/<date_str>'', ''get_meetings_for_date''),
      (''/meeting/<meeting_id>'', ''get_meeting_details''),
      (''/next-meeting'', ''get_next_meeting''),
      (''/search-meetings'', ''search_meetings'')]
   \<and> map rule_methods url_map =
     [{''GET'', ''HEAD'', ''OPTIONS''}, {''GET'', ''HEAD'', ''OPTIONS''},
      {''GET'', ''HEAD'', ''OPTIONS''}, {''GET'', ''HEAD'', ''OPTIONS''},
      {''GET'', ''HEAD'', ''OPTIONS''}, {''POST'', ''OPTIONS''}]
   \<and> is_object (body (fst (handle lib req g)))
   \<and> (http_method \<in> allowed_methods (endpoint_of req)
        \<and> http_method \<noteq> ''OPTIONS'' \<and> http_method \<noteq> ''HEAD''
        \<longrightarrow> fst (flask_respond lib http_method req g)
            = \<lparr>response_status = status (fst (handle lib req g)),
               response_content = Json_content (body (fst (handle lib req g)))\<rparr>)
   \<and> (http_method = ''OPTIONS''
        \<longrightarrow> flask_respond lib http_method req g
            = (\<lparr>response_status = 200, response_content = Empty_content\<rparr>, g))
   \<and> (http_method = ''HEAD'' \<and> endpoint_of req \<noteq> Search_meetings
        \<longrightarrow> fst (flask_respond lib http_method req g)
            = \<lparr>response_status = status (fst (handle lib req g)),
               response_content = Empty_content\<rparr>)
   \<and> (http_method \<notin> allowed_methods (endpoint_of req)
        \<longrightarrow> flask_respond lib http_method req g
            = (\<lparr>response_status = 405, response_content = Html_content\<rparr>, g))
   \<and> allowed_methods (endpoint_of req)
       = (if endpoint_of req = Search_meetings then {''POST'', ''OPTIONS''}
          else {''GET'', ''HEAD'', ''OPTIONS''})"
proof -
  have obj: "is_object (body (fst (handle lib req g)))"
    by (simp add: fst_handle view_is_object)
  have a: "http_method \<in> allowed_methods (endpoint_of req)
        \<and> http_method \<noteq> ''OPTIONS'' \<and> http_method \<noteq> ''HEAD''
        \<longrightarrow> fst (flask_respond lib http_method req g)
            = \<lparr>response_status = status (fst (handle lib req g)),
               response_content = Json_content (body (fst (handle lib req g)))\<rparr>"
    by (simp add: flask_respond_def split: prod.splits)
  have b: "http_method = ''OPTIONS''
        \<longrightarrow> flask_respond lib http_method req g
            = (\<lparr>response_status = 200, response_content = Empty_content\<rparr>, g)"
    by (simp add: flask_respond_def allowed_methods_eq)
  have c: "http_method = ''HEAD'' \<and> endpoint_of req \<noteq> Search_meetings
        \<longrightarrow> fst (flask_respond lib http_method req g)
            = \<lparr>response_status = status (fst (handle lib req g)),
               response_content = Empty_content\<rparr>"
    by (simp add: flask_respond_def allowed_methods_eq split: prod.splits)
  have d: "http_method \<notin> allowed_methods (endpoint_of req)
        \<longrightarrow> flask_respond lib http_method req g
            = (\<lparr>response_status = 405, response_content = Html_content\<rparr>, g)"
    by (simp add: flask_respond_def)
  have r: "map (\<lambda>(rule, methods, ep). (methods, rule)) routes =
     [([''GET''], ''/health''), ([''GET''], ''/meetings/<date_str>''),
      ([''GET''], ''/meeting/<meeting_id>''), ([''GET''], ''/next-meeting''),
      ([''POST''], ''/search-meetings'')]"
    by (simp add: routes_def)
  from r url_map_rules url_map_methods obj a b c d allowed_methods_eq [of "endpoint_of req"]
  show ?thesis
    by (intro conjI)
qed

theorem five_routes_json_bodies_witness:
  "''GET'' \<in> allowed_methods (endpoint_of (Health sample_day))
   \<and> fst (flask_respond sample_lib ''GET'' (Health sample_day)
            \<lparr>calendar_agent = Some sample_agent, agent_state = 0\<rparr>)
       = \<lparr>response_status = 200,
          response_content = Json_content (JObj
            [(''status'', JStr ''healthy''), (''agent_available'', JBool True),
             (''timestamp'', JStr ''2025-09-24T00:00:00'')])\<rparr>
   \<and> ''DELETE'' \<notin> allowed_methods (endpoint_of (Health sample_day))
   \<and> fst (flask_respond sample_lib ''DELETE'' (Health sample_day)
            \<lparr>calendar_agent = Some sample_agent, agent_state = 0\<rparr>)
       = \<lparr>response_status = 405, response_content = Html_content\<rparr>"
proof -
  let ?g = "\<lparr>calendar_agent = Some sample_agent, agent_state = 0\<rparr>"
  have m: "''GET'' \<in> allowed_methods (endpoint_of (Health sample_day))
           \<and> ''GET'' \<noteq> ''OPTIONS'' \<and> ''GET'' \<noteq> ''HEAD''"
    by (simp add: allowed_methods_eq)
  have n: "''DELETE'' \<notin> allowed_methods (endpoint_of (Health sample_day))"
    by (simp add: allowed_methods_eq)
  have h: "fst (handle sample_lib (Health sample_day) ?g)
           = \<lparr>status = 200, body = JObj
            [(''status'', JStr ''healthy''), (''agent_available'', JBool True),
             (''timestamp'', JStr ''2025-09-24T00:00:00'')]\<rparr>"
    by code_simp
  note t = five_routes_json_bodies [where http_method = "''GET''" and req = "Health sample_day"
      and lib = sample_lib and g = ?g]
  note u = five_routes_json_bodies [where http_method = "''DELETE''" and req = "Health sample_day"
      and lib = sample_lib and g = ?g]
  have a: "fst (flask_respond sample_lib ''GET'' (Health sample_day) ?g)
            = \<lparr>response_status = status (fst (handle sample_lib (Health sample_day) ?g)),
               response_content = Json_content (body (fst (handle sample_lib
                  (Health sample_day) ?g)))\<rparr>"
    by (rule t [THEN conjunct2, THEN conjunct2, THEN conjunct2, THEN conjunct2, THEN conjunct1,
          THEN mp, OF m])
  have b: "flask_respond sample_lib ''DELETE'' (Health sample_day) ?g
            = (\<lparr>response_status = 405, response_content = Html_content\<rparr>, ?g)"
    by (rule u [THEN conjunct2, THEN conjunct2, THEN conjunct2, THEN conjunct2, THEN conjunct2,
          THEN conjunct2, THEN conjunct2, THEN conjunct1, THEN mp, OF n])
  from m n a b h show ?thesis
    by simp
qed

subsection \<open>The module's bindings\<close>

lemma preserves_return: "preserves P (return_call a)"
  by (simp add: preserves_def return_call_def)

lemma preserves_raise: "preserves P (raise_call e)"
  by (simp add: preserves_def raise_call_def)

lemma preserves_bind:
  "preserves P m \<Longrightarrow> (\<And>a. preserves P (f a)) \<Longrightarrow> preserves P (bind_call m f)"
  unfolding preserves_def bind_call_def
  by (auto split: prod.splits sum.splits)

lemma preserves_search_keywords:
  "agent_preserves P ag \<Longrightarrow> preserves P (search_keywords ag kws acc)"
proof (induction kws arbitrary: acc)
  case Nil
  then show ?case by (simp add: preserves_def)
next
  case (Cons k kws)
  have "search_keywords ag (k # kws) acc =
          bind_call (search_meetings_by_keyword ag (JStr k) 20)
            (\<lambda>ms. search_keywords ag kws (acc @ ms))"
    by (auto simp: bind_call_def split: prod.splits sum.splits)
  with Cons show ?case
    by (simp add: preserves_bind agent_preserves_def)
qed

lemma preserves_try_date_formats:
  "agent_preserves P ag \<Longrightarrow> preserves P (try_date_formats ag fs ms)"
proof (induction fs arbitrary: ms)
  case Nil
  then show ?case by (simp add: preserves_def)
next
  case (Cons f fs)
  have "try_date_formats ag (f # fs) ms =
          bind_call (search_meetings_by_keyword ag (JStr f) 10)
            (\<lambda>found. if found \<noteq> [] then return_call found else try_date_formats ag fs found)"
    by (auto simp: bind_call_def return_call_def split: prod.splits sum.splits)
  with Cons show ?case
    by (simp add: preserves_bind preserves_return agent_preserves_def)
qed

lemma preserves_scan_keywords:
  assumes "agent_preserves P ag" and "P s"
  shows "P (snd (scan_keywords ag d ms s))"
proof -
  from preserves_search_keywords [OF assms(1)] assms(2)
  have "P (snd (search_keywords ag keywords_list [] s))"
    by (simp add: preserves_def)
  then show ?thesis
    by (auto simp: scan_keywords_def split: prod.splits sum.splits)
qed

lemma preserves_find_meetings:
  assumes "agent_preserves P ag"
  shows "preserves P (find_meetings ag date_str d fs)"
proof -
  have "preserves P (\<lambda>s. case scan_keywords ag d ms s of (meetings', s') \<Rightarrow> (Inr meetings', s'))"
    for ms :: "meeting list"
    using preserves_scan_keywords [OF assms]
    by (auto simp: preserves_def split: prod.splits) (metis snd_conv)
  then have "preserves P (\<lambda>s. if ms = []
       then (case scan_keywords ag d ms s of (meetings', s') \<Rightarrow> (Inr meetings', s'))
       else (Inr ms, s))" for ms :: "meeting list"
    by (cases "ms = []") (simp_all add: preserves_def)
  with assms show ?thesis
    unfolding find_meetings_def
    by (intro preserves_bind)
       (simp_all add: agent_preserves_def preserves_try_date_formats preserves_return)
qed

lemma preserves_generate_analysis:
  "agent_preserves P ag \<Longrightarrow> preserves P (generate_analysis ag m rs)"
  unfolding generate_analysis_def
  by (intro preserves_bind) (simp_all add: agent_preserves_def preserves_return)

lemma preserves_enhance_meeting:
  assumes "agent_preserves P ag"
  shows "preserves P (enhance_meeting lib ag m)"
proof -
  have "preserves P (\<lambda>s. case generate_analysis ag m rs s of
         (Inl e, s') \<Rightarrow> (Inr (x :: json), s')
       | (Inr (meeting_summary, preparation_questions), s') \<Rightarrow>
           (Inr (y meeting_summary preparation_questions), s'))" for rs x y
    using preserves_generate_analysis [OF assms, of m rs]
    by (auto simp: preserves_def split: prod.splits sum.splits)
  with assms show ?thesis
    unfolding enhance_meeting_def
    by (intro preserves_bind) (simp_all add: agent_preserves_def)
qed

lemma preserves_enhance_meetings:
  "agent_preserves P ag \<Longrightarrow> preserves P (enhance_meetings lib ag ms)"
proof (induction ms)
  case Nil
  then show ?case by (simp add: preserves_def)
next
  case (Cons m ms)
  have "enhance_meetings lib ag (m # ms) =
          bind_call (enhance_meeting lib ag m) (\<lambda>em.
          bind_call (enhance_meetings lib ag ms) (\<lambda>ems. return_call (em # ems)))"
    by (auto simp: bind_call_def return_call_def split: prod.splits sum.splits)
  with Cons show ?case
    by (simp add: preserves_bind preserves_return preserves_enhance_meeting)
qed

lemma preserves_meeting_details:
  "agent_preserves P ag \<Longrightarrow> preserves P (meeting_details lib ag m)"
  unfolding meeting_details_def
  by (intro preserves_bind)
     (simp_all add: agent_preserves_def preserves_return preserves_generate_analysis
        split: prod.splits)

lemma preserves_tries:
  assumes "agent_preserves P ag"
  shows "preserves P (meetings_for_date_try lib ag date_str)"
    and "preserves P (meeting_details_try lib ag mid)"
    and "preserves P (next_meeting_try lib ag)"
    and "preserves P (search_meetings_try lib ag payload)"
proof -
  show "preserves P (meetings_for_date_try lib ag date_str)"
    unfolding meetings_for_date_try_def using assms
    by (auto split: sum.splits
        intro!: preserves_bind preserves_raise preserves_return preserves_find_meetings
          preserves_enhance_meetings)
  show "preserves P (meeting_details_try lib ag mid)"
    unfolding meeting_details_try_def using assms
    by (auto simp: agent_preserves_def split: option.splits
        intro!: preserves_bind preserves_return preserves_meeting_details)
  show "preserves P (next_meeting_try lib ag)"
    unfolding next_meeting_try_def using assms
    by (auto simp: agent_preserves_def split: option.splits
        intro!: preserves_bind preserves_return preserves_meeting_details)
  show "preserves P (search_meetings_try lib ag payload)"
    unfolding search_meetings_try_def using assms
    by (auto simp: agent_preserves_def split: sum.splits
        intro!: preserves_bind preserves_raise preserves_return preserves_enhance_meetings)
qed

lemma view_preserves:
  assumes "agent_preserves P ag" and "P s"
  shows "P (snd (view lib (Some ag) req s))"
proof -
  have *: "P (snd (case c s of (Inl e, s') \<Rightarrow> (x e, s') | (Inr response, s') \<Rightarrow> (response, s')))"
    if "preserves P c" for c x
    using that assms(2) by (auto simp: preserves_def split: prod.splits sum.splits)
  note tries = preserves_tries [OF assms(1)]
  show ?thesis
  proof (cases req)
    case (Health now)
    with assms(2) show ?thesis by simp
  next
    case (Meetings_for_date date_str)
    show ?thesis
      unfolding Meetings_for_date view.simps get_meetings_for_date_def option.case
      by (rule * [OF tries(1)])
  next
    case (Meeting_details mid)
    show ?thesis
      unfolding Meeting_details view.simps get_meeting_details_def option.case
      by (rule * [OF tries(2)])
  next
    case Next_meeting
    show ?thesis
      unfolding Next_meeting view.simps get_next_meeting_def option.case
      by (rule * [OF tries(3)])
  next
    case (Search payload)
    show ?thesis
      unfolding Search view.simps search_meetings_def option.case
      by (rule * [OF tries(4)])
  qed
qed

lemma view_no_agent_state: "snd (view lib None req s) = s"
  by (cases req)
     (simp_all add: get_meetings_for_date_def get_meeting_details_def get_next_meeting_def
        search_meetings_def)

lemma in_module_preserves:
  "agent_preserves (\<lambda>g'. calendar_agent g' = c \<and> module_state.more g' = z) (in_module ag)"
  by (simp add: agent_preserves_def preserves_def in_module_def method_in_module_def
      split: prod.splits)

text \<open>
  C7, as the code has it. The handlers call the methods of the singleton, and a method may
  change the state of the agent object: with an agent that counts its calls, the state of
  the singleton is another after \<^verbatim>\<open>GET /next-meeting\<close>.
\<close>

theorem singleton_state_changes:
  "agent_state (snd (handle sample_lib Next_meeting
     \<lparr>calendar_agent = Some sample_agent, agent_state = 0\<rparr>)) = 3"
  by code_simp

text \<open>
  C7, amended. Handling a request leaves every binding of the module as it was: the global
  \<^verbatim>\<open>calendar_agent\<close> refers to the same agent, and all other bindings are the same. A
  handler changes state only by calling the methods of the agent: whatever every method of
  the agent preserves, the handler preserves, and without an agent nothing changes. The
  state inside the agent object is the agent's own and may change.
\<close>

theorem handlers_keep_module_bindings:
  "calendar_agent (snd (handle lib req g)) = calendar_agent g
   \<and> module_state.more (snd (handle lib req g)) = module_state.more g
   \<and> (calendar_agent g = None \<longrightarrow> snd (handle lib req g) = g)
   \<and> (agent_preserves P ag \<and> P s \<longrightarrow> P (snd (view lib (Some ag) req s)))
   \<and> snd (view lib None req s) = s"
proof -
  have a: "calendar_agent (snd (handle lib req g)) = calendar_agent g
           \<and> module_state.more (snd (handle lib req g)) = module_state.more g"
  proof (cases "calendar_agent g")
    case None
    then show ?thesis by (simp add: handle_def view_no_agent_state)
  next
    case (Some ag)
    have ip: "agent_preserves
                (\<lambda>g'. calendar_agent g' = calendar_agent g
                        \<and> module_state.more g' = module_state.more g) (in_module ag)"
      by (rule in_module_preserves)
    have "calendar_agent (snd (view lib (Some (in_module ag)) req g)) = calendar_agent g
          \<and> module_state.more (snd (view lib (Some (in_module ag)) req g))
              = module_state.more g"
      by (rule view_preserves [OF ip]) simp
    then show ?thesis by (simp add: handle_def Some)
  qed
  have b: "calendar_agent g = None \<longrightarrow> snd (handle lib req g) = g"
    by (simp add: handle_def view_no_agent_state)
  have c: "agent_preserves P ag \<and> P s \<longrightarrow> P (snd (view lib (Some ag) req s))"
  proof
    assume "agent_preserves P ag \<and> P s"
    then show "P (snd (view lib (Some ag) req s))"
      by (elim conjE) (rule view_preserves)
  qed
  have d: "snd (view lib None req s) = s"
    by (rule view_no_agent_state)
  from a have a1: "calendar_agent (snd (handle lib req g)) = calendar_agent g"
    and a2: "module_state.more (snd (handle lib req g)) = module_state.more g"
    by (rule conjunct1, rule conjunct2)
  from a1 a2 b c d show ?thesis
    by (intro conjI)
qed

theorem handlers_keep_module_bindings_witness:
  "0 < snd (view sample_lib (Some sample_agent) Next_meeting (1::nat))
   \<and> snd (handle sample_lib (Meeting_details ''a1'')
            \<lparr>calendar_agent = (None :: nat agent option), agent_state = 5\<rparr>)
       = \<lparr>calendar_agent = None, agent_state = 5\<rparr>"
proof -
  have p: "agent_preserves (\<lambda>s. 0 < s) sample_agent"
    by (simp add: agent_preserves_def preserves_def sample_agent_def)
  have n: "calendar_agent \<lparr>calendar_agent = (None :: nat agent option), agent_state = 5\<rparr> = None"
    by simp
  have one: "0 < (1::nat)"
    by simp
  note t = handlers_keep_module_bindings [of sample_lib Next_meeting
      "\<lparr>calendar_agent = (None :: nat agent option), agent_state = 5\<rparr>"
      "\<lambda>s. 0 < s" sample_agent 1]
  have a: "0 < snd (view sample_lib (Some sample_agent) Next_meeting (1::nat))"
    by (rule t [THEN conjunct2, THEN conjunct2, THEN conjunct2, THEN conjunct1, THEN mp,
          OF conjI [OF p one]])
  note u = handlers_keep_module_bindings [of sample_lib "Meeting_details ''a1''"
      "\<lparr>calendar_agent = (None :: nat agent option), agent_state = 5\<rparr>"]
  have b: "snd (handle sample_lib (Meeting_details ''a1'')
            \<lparr>calendar_agent = (None :: nat agent option), agent_state = 5\<rparr>)
       = \<lparr>calendar_agent = None, agent_state = 5\<rparr>"
    by (rule u [THEN conjunct2, THEN conjunct2, THEN conjunct1, THEN mp, OF n])
  from a b show ?thesis by (rule conjI)
qed

subsection \<open>The statuses of failures\<close>

lemma view_500:
  "status (fst (view lib ca req s)) = 500 \<longleftrightarrow>
   (ca = None \<and> endpoint_of req \<noteq> Health_check)
   \<or> (\<exists>ag e s'. ca = Some ag
         \<and> ((\<exists>date_str. req = Meetings_for_date date_str
                \<and> meetings_for_date_try lib ag date_str s = (Inl e, s'))
            \<or> (\<exists>mid. req = Meeting_details mid
                \<and> meeting_details_try lib ag mid s = (Inl e, s'))
            \<or> (req = Next_meeting \<and> next_meeting_try lib ag s = (Inl e, s'))
            \<or> (\<exists>payload. req = Search payload
                \<and> search_meetings_try lib ag payload s = (Inl e, s'))))"
proof (cases req)
  case (Health now)
  then show ?thesis by (simp add: health_check_def jsonify_def)
next
  case (Meetings_for_date date_str)
  then show ?thesis
    by (auto simp: get_meetings_for_date_def meetings_for_date_try_def jsonify_code_def
        jsonify_def bind_call_def return_call_def raise_call_def
        split: option.splits sum.splits prod.splits)
next
  case (Meeting_details mid)
  then show ?thesis
    by (auto simp: get_meeting_details_def meeting_details_try_def jsonify_code_def
        jsonify_def bind_call_def return_call_def
        split: option.splits sum.splits prod.splits)
next
  case Next_meeting
  then show ?thesis
    by (auto simp: get_next_meeting_def next_meeting_try_def jsonify_code_def
        jsonify_def bind_call_def return_call_def
        split: option.splits sum.splits prod.splits)
next
  case (Search payload)
  then show ?thesis
    by (auto simp: search_meetings_def search_meetings_try_def jsonify_code_def
        jsonify_def bind_call_def return_call_def raise_call_def
        split: option.splits sum.splits prod.splits if_splits)
qed

lemma meetings_for_date_try_raises:
  "meetings_for_date_try lib ag date_str s = (Inl e, s') \<longleftrightarrow>
   (strptime lib date_str ''%Y-%m-%d'' = Inl e \<and> s' = s)
   \<or> (\<exists>d. strptime lib date_str ''%Y-%m-%d'' = Inr d
         \<and> (find_meetings ag date_str d (date_formats lib d) s = (Inl e, s')
            \<or> (\<exists>ms s1. find_meetings ag date_str d (date_formats lib d) s = (Inr ms, s1)
                  \<and> enhance_meetings lib ag ms s1 = (Inl e, s'))))"
  by (auto simp: meetings_for_date_try_def bind_call_def return_call_def raise_call_def
      split: sum.splits prod.splits)

lemma find_meetings_raises:
  "find_meetings ag date_str d fs s = (Inl e, s') \<longleftrightarrow>
   search_meetings_by_keyword ag (JStr date_str) 10 s = (Inl e, s')
   \<or> (\<exists>s1. search_meetings_by_keyword ag (JStr date_str) 10 s = (Inr [], s1)
         \<and> try_date_formats ag fs [] s1 = (Inl e, s'))"
  by (auto simp: find_meetings_def bind_call_def return_call_def
      split: sum.splits prod.splits if_splits)

lemma enhance_meeting_raises:
  "enhance_meeting lib ag m s = (Inl e, s') \<longleftrightarrow>
   research_meeting_attendees ag m s = (Inl e, s')"
  by (auto simp: enhance_meeting_def bind_call_def split: sum.splits prod.splits)

lemma meeting_details_raises:
  "meeting_details lib ag m s = (Inl e, s') \<longleftrightarrow>
   research_meeting_attendees ag m s = (Inl e, s')
   \<or> (\<exists>rs s1. research_meeting_attendees ag m s = (Inr rs, s1)
         \<and> generate_analysis ag m rs s1 = (Inl e, s'))"
  by (auto simp: meeting_details_def bind_call_def return_call_def
      split: sum.splits prod.splits)

lemma meeting_details_try_raises:
  "meeting_details_try lib ag mid s = (Inl e, s') \<longleftrightarrow>
   get_meeting_by_id ag mid s = (Inl e, s')
   \<or> (\<exists>m s1. get_meeting_by_id ag mid s = (Inr (Some m), s1)
         \<and> meeting_details lib ag m s1 = (Inl e, s'))"
  by (auto simp: meeting_details_try_def bind_call_def return_call_def
      split: sum.splits prod.splits option.splits)

lemma next_meeting_try_raises:
  "next_meeting_try lib ag s = (Inl e, s') \<longleftrightarrow>
   get_next_meeting_info ag s = (Inl e, s')
   \<or> (\<exists>m s1. get_next_meeting_info ag s = (Inr (Some m), s1)
         \<and> meeting_details lib ag m s1 = (Inl e, s'))"
  by (auto simp: next_meeting_try_def bind_call_def return_call_def
      split: sum.splits prod.splits option.splits)

lemma search_meetings_try_raises:
  "search_meetings_try lib ag payload s = (Inl e, s') \<longleftrightarrow>
   (payload = Inl e \<and> s' = s)
   \<or> (\<exists>data. payload = Inr data
         \<and> ((get_keyword data = Inl e \<and> s' = s)
            \<or> (\<exists>kw. get_keyword data = Inr kw \<and> truthy kw
                  \<and> (search_meetings_by_keyword ag kw 5 s = (Inl e, s')
                     \<or> (\<exists>ms s1. search_meetings_by_keyword ag kw 5 s = (Inr ms, s1)
                           \<and> enhance_meetings lib ag ms s1 = (Inl e, s'))))))"
  by (auto simp: search_meetings_try_def bind_call_def return_call_def raise_call_def
      split: sum.splits prod.splits if_splits)

lemma try_date_formats_raises:
  "try_date_formats ag fs ms s = (Inl e, s') \<Longrightarrow>
   \<exists>f \<in> set fs. \<exists>s0. search_meetings_by_keyword ag (JStr f) 10 s0 = (Inl e, s')"
proof (induction fs arbitrary: ms s)
  case Nil
  then show ?case by simp
next
  case (Cons f fs)
  obtain r1 s1 where s1: "search_meetings_by_keyword ag (JStr f) 10 s = (r1, s1)"
    by (metis prod.exhaust)
  show ?case
  proof (cases r1)
    case (Inl e1)
    with Cons.prems s1 have "search_meetings_by_keyword ag (JStr f) 10 s = (Inl e, s')"
      by simp
    then show ?thesis by auto
  next
    case (Inr found)
    with Cons.prems s1 have "try_date_formats ag fs found s1 = (Inl e, s')"
      by (simp split: if_splits)
    from Cons.IH [OF this] show ?thesis by auto
  qed
qed

lemma enhance_meetings_raises:
  "enhance_meetings lib ag ms s = (Inl e, s') \<Longrightarrow>
   \<exists>m \<in> set ms. \<exists>s0. research_meeting_attendees ag m s0 = (Inl e, s')"
proof (induction ms arbitrary: s)
  case Nil
  then show ?case by simp
next
  case (Cons m ms)
  obtain r1 s1 where e1: "enhance_meeting lib ag m s = (r1, s1)"
    by (metis prod.exhaust)
  show ?case
  proof (cases r1)
    case (Inl e1)
    with Cons.prems e1 have "enhance_meeting lib ag m s = (Inl e, s')"
      by simp
    then have "research_meeting_attendees ag m s = (Inl e, s')"
      by (simp add: enhance_meeting_raises)
    then show ?thesis by auto
  next
    case (Inr em)
    with Cons.prems e1 have "enhance_meetings lib ag ms s1 = (Inl e, s')"
      by (simp split: prod.splits sum.splits)
    from Cons.IH [OF this] show ?thesis by auto
  qed
qed

lemma next_meeting_none:
  "get_next_meeting_info ag s = (Inr None, s1) \<Longrightarrow>
   get_next_meeting lib (Some ag) s
     = (jsonify (JObj [(''message'', JStr ''No upcoming meetings found''),
                       (''meeting'', JNull)]), s1)"
  by (simp add: get_next_meeting_def next_meeting_try_def bind_call_def return_call_def)

text \<open>
  C3, as the code has it. A missing keyword is answered with 400, so 500 and 404 are not the
  only error statuses; and three failure or not-found paths are answered with 200:
  \<^verbatim>\<open>GET /next-meeting\<close> when there is no upcoming meeting, \<^verbatim>\<open>GET /meetings/<date_str>\<close>
  when a keyword search of the fallback raises, and a list endpoint when the summary
  generation raises.
\<close>

theorem other_statuses_on_failure_paths:
  "status (fst (view sample_lib (Some sample_agent) (Search (Inr (JObj []))) 0)) = 400
   \<and> field (body (fst (view sample_lib (Some sample_agent) (Search (Inr (JObj []))) 0)))
        ''error'' = Some (JStr ''Keyword is required'')
   \<and> get_next_meeting_info idle_agent 0 = (Inr None, 1)
   \<and> status (fst (view sample_lib (Some idle_agent) Next_meeting 0)) = 200
   \<and> search_meetings_by_keyword raising_agent (JStr ''call'') 20 9
       = (Inl (Exn ''calendar unavailable''), 10)
   \<and> status (fst (view sample_lib (Some raising_agent) (Meetings_for_date ''2025-09-24'') 0))
       = 200
   \<and> generate_meeting_summary sample_agent (sample_meeting ''d1'' ''Call'' (Some sample_day))
        [sample_result] 2 = (Inl (Exn ''model unavailable''), 3)
   \<and> status (fst (view sample_lib (Some sample_agent)
        (Search (Inr (JObj [(''keyword'', JStr ''call'')]))) 0)) = 200"
proof -
  have a: "status (fst (view sample_lib (Some sample_agent) (Search (Inr (JObj []))) 0)) = 400"
    by (simp add: search_meetings_def search_meetings_try_def get_keyword_def return_call_def
        jsonify_code_def)
  have a': "field (body (fst (view sample_lib (Some sample_agent) (Search (Inr (JObj []))) 0)))
        ''error'' = Some (JStr ''Keyword is required'')"
    by (simp add: search_meetings_def search_meetings_try_def get_keyword_def return_call_def
        jsonify_code_def)
  have b: "get_next_meeting_info idle_agent 0 = (Inr None, 1)"
    by (simp add: idle_agent_def)
  have c: "status (fst (view sample_lib (Some idle_agent) Next_meeting 0)) = 200"
    by (simp add: next_meeting_none [OF b] jsonify_def)
  have d: "search_meetings_by_keyword raising_agent (JStr ''call'') 20 9
       = (Inl (Exn ''calendar unavailable''), 10)"
    by (simp add: raising_agent_def)
  have e: "status (fst (view sample_lib (Some raising_agent)
             (Meetings_for_date ''2025-09-24'') 0)) = 200"
    by code_simp
  have f: "generate_meeting_summary sample_agent
        (sample_meeting ''d1'' ''Call'' (Some sample_day)) [sample_result] 2
        = (Inl (Exn ''model unavailable''), 3)"
    by (simp add: sample_agent_def sample_meeting_def)
  have g: "status (fst (view sample_lib (Some sample_agent)
        (Search (Inr (JObj [(''keyword'', JStr ''call'')]))) 0)) = 200"
    by code_simp
  from a a' b c d e f g show ?thesis
    by (intro conjI)
qed

text \<open>
  C3, amended. Every response of every endpoint has status 200, 400, 404 or 500, and every
  response with another status than 200 carries an error string in its JSON body. The
  status is 404 exactly when \<^verbatim>\<open>GET /meeting/<meeting_id>\<close> finds no meeting, 400 exactly
  when \<^verbatim>\<open>POST /search-meetings\<close> has a JSON object with no keyword or a false one, and 500
  exactly when the agent is missing (for every endpoint but the health check) or an
  exception leaves the handler's \<^verbatim>\<open>try\<close> block, in which case the body holds the
  exception's text. The exceptions that leave a \<^verbatim>\<open>try\<close> block are those of parsing the
  date, of a search under a date string, of \<^verbatim>\<open>research_meeting_attendees\<close>, of
  \<^verbatim>\<open>get_meeting_by_id\<close> and \<^verbatim>\<open>get_next_meeting_info\<close>, of the analysis in the two
  single-meeting handlers, of reading the request body and its keyword, and of the keyword
  search of \<^verbatim>\<open>POST /search-meetings\<close>. Three paths are answered with 200 instead:
  no upcoming meeting in \<^verbatim>\<open>GET /next-meeting\<close> (a message and a null meeting), an exception
  of the analysis in a list endpoint (the two error texts), and an exception of a keyword
  search in the date fallback (no meetings).
\<close>

theorem failure_statuses:
  "status (fst (view lib ca req s)) \<in> {200, 400, 404, 500}
   \<and> (status (fst (view lib ca req s)) \<noteq> 200 \<longrightarrow>
        (\<exists>msg. field (body (fst (view lib ca req s))) ''error'' = Some (JStr msg)))
   \<and> (status (fst (view lib ca req s)) = 404 \<longleftrightarrow>
        (\<exists>mid ag s1. req = Meeting_details mid \<and> ca = Some ag
                      \<and> get_meeting_by_id ag mid s = (Inr None, s1)))
   \<and> (status (fst (view lib ca req s)) = 400 \<longleftrightarrow>
        (\<exists>data kw ag. req = Search (Inr data) \<and> ca = Some ag
                       \<and> get_keyword data = Inr kw \<and> \<not> truthy kw))
   \<and> (status (fst (view lib ca req s)) = 500 \<longleftrightarrow>
        (ca = None \<and> endpoint_of req \<noteq> Health_check)
        \<or> (\<exists>ag e s'. ca = Some ag
              \<and> ((\<exists>date_str. req = Meetings_for_date date_str
                     \<and> meetings_for_date_try lib ag date_str s = (Inl e, s'))
                 \<or> (\<exists>mid. req = Meeting_details mid
                     \<and> meeting_details_try lib ag mid s = (Inl e, s'))
                 \<or> (req = Next_meeting \<and> next_meeting_try lib ag s = (Inl e, s'))
                 \<or> (\<exists>payload. req = Search payload
                     \<and> search_meetings_try lib ag payload s = (Inl e, s')))))
   \<and> (ca = None \<and> endpoint_of req \<noteq> Health_check \<longrightarrow>
        status (fst (view lib ca req s)) = 500)
   \<and> (meetings_for_date_try lib ag date_str s = (Inl e, s') \<longrightarrow>
        get_meetings_for_date lib (Some ag) date_str s
          = (jsonify_code (JObj [(''error'', JStr (str_exn e)), (''meetings'', JArr [])]) 500, s'))
   \<and> (meeting_details_try lib ag mid s = (Inl e, s') \<longrightarrow>
        get_meeting_details lib (Some ag) mid s
          = (jsonify_code (JObj [(''error'', JStr (str_exn e))]) 500, s'))
   \<and> (next_meeting_try lib ag s = (Inl e, s') \<longrightarrow>
        get_next_meeting lib (Some ag) s
          = (jsonify_code (JObj [(''error'', JStr (str_exn e))]) 500, s'))
   \<and> (search_meetings_try lib ag payload s = (Inl e, s') \<longrightarrow>
        search_meetings lib (Some ag) payload s
          = (jsonify_code (JObj [(''error'', JStr (str_exn e))]) 500, s'))
   \<and> (meetings_for_date_try lib ag date_str s = (Inl e, s') \<longleftrightarrow>
        (strptime lib date_str ''%Y-%m-%d'' = Inl e \<and> s' = s)
        \<or> (\<exists>d. strptime lib date_str ''%Y-%m-%d'' = Inr d
              \<and> (find_meetings ag date_str d (date_formats lib d) s = (Inl e, s')
                 \<or> (\<exists>ms s1. find_meetings ag date_str d (date_formats lib d) s = (Inr ms, s1)
                       \<and> enhance_meetings lib ag ms s1 = (Inl e, s')))))
   \<and> (find_meetings ag date_str d fs s = (Inl e, s') \<longleftrightarrow>
        search_meetings_by_keyword ag (JStr date_str) 10 s = (Inl e, s')
        \<or> (\<exists>s1. search_meetings_by_keyword ag (JStr date_str) 10 s = (Inr [], s1)
              \<and> try_date_formats ag fs [] s1 = (Inl e, s')))
   \<and> (enhance_meeting lib ag m s = (Inl e, s') \<longleftrightarrow>
        research_meeting_attendees ag m s = (Inl e, s'))
   \<and> (meeting_details_try lib ag mid s = (Inl e, s') \<longleftrightarrow>
        get_meeting_by_id ag mid s = (Inl e, s')
        \<or> (\<exists>m s1. get_meeting_by_id ag mid s = (Inr (Some m), s1)
              \<and> meeting_details lib ag m s1 = (Inl e, s')))
   \<and> (next_meeting_try lib ag s = (Inl e, s') \<longleftrightarrow>
        get_next_meeting_info ag s = (Inl e, s')
        \<or> (\<exists>m s1. get_next_meeting_info ag s = (Inr (Some m), s1)
              \<and> meeting_details lib ag m s1 = (Inl e, s')))
   \<and> (meeting_details lib ag m s = (Inl e, s') \<longleftrightarrow>
        research_meeting_attendees ag m s = (Inl e, s')
        \<or> (\<exists>rs s1. research_meeting_attendees ag m s = (Inr rs, s1)
              \<and> generate_analysis ag m rs s1 = (Inl e, s')))
   \<and> (search_meetings_try lib ag payload s = (Inl e, s') \<longleftrightarrow>
        (payload = Inl e \<and> s' = s)
        \<or> (\<exists>data. payload = Inr data
              \<and> ((get_keyword data = Inl e \<and> s' = s)
                 \<or> (\<exists>kw. get_keyword data = Inr kw \<and> truthy kw
                       \<and> (search_meetings_by_keyword ag kw 5 s = (Inl e, s')
                          \<or> (\<exists>ms s1. search_meetings_by_keyword ag kw 5 s = (Inr ms, s1)
                                \<and> enhance_meetings lib ag ms s1 = (Inl e, s')))))))
   \<and> (get_next_meeting_info ag s = (Inr None, s1) \<longrightarrow>
        get_next_meeting lib (Some ag) s
          = (jsonify (JObj [(''message'', JStr ''No upcoming meetings found''),
                            (''meeting'', JNull)]), s1))
   \<and> (research_meeting_attendees ag m s = (Inr rs, s1)
        \<and> generate_analysis ag m rs s1 = (Inl e, s') \<longrightarrow>
        enhance_meeting lib ag m s
          = (Inr (meeting_data lib m rs (JStr ''Error generating research summary'')
                   (JStr ''Error generating preparation questions'')), s'))
   \<and> (search_keywords ag keywords_list [] s = (Inl e, s') \<longrightarrow>
        scan_keywords ag d [] s = ([], s'))
   \<and> (try_date_formats ag fs [] s = (Inl e, s') \<longrightarrow>
        (\<exists>f \<in> set fs. \<exists>s0. search_meetings_by_keyword ag (JStr f) 10 s0 = (Inl e, s')))
   \<and> (enhance_meetings lib ag ms s = (Inl e, s') \<longrightarrow>
        (\<exists>m \<in> set ms. \<exists>s0. research_meeting_attendees ag m s0 = (Inl e, s')))"
proof -
  have na: "ca = None \<and> endpoint_of req \<noteq> Health_check \<longrightarrow>
        status (fst (view lib ca req s)) = 500"
    by (auto simp: view_no_agent)
  have t1: "meetings_for_date_try lib ag date_str s = (Inl e, s') \<longrightarrow>
        get_meetings_for_date lib (Some ag) date_str s
          = (jsonify_code (JObj [(''error'', JStr (str_exn e)), (''meetings'', JArr [])]) 500, s')"
    by (simp add: get_meetings_for_date_def)
  have t2: "meeting_details_try lib ag mid s = (Inl e, s') \<longrightarrow>
        get_meeting_details lib (Some ag) mid s
          = (jsonify_code (JObj [(''error'', JStr (str_exn e))]) 500, s')"
    by (simp add: get_meeting_details_def)
  have t3: "next_meeting_try lib ag s = (Inl e, s') \<longrightarrow>
        get_next_meeting lib (Some ag) s
          = (jsonify_code (JObj [(''error'', JStr (str_exn e))]) 500, s')"
    by (simp add: get_next_meeting_def)
  have t4: "search_meetings_try lib ag payload s = (Inl e, s') \<longrightarrow>
        search_meetings lib (Some ag) payload s
          = (jsonify_code (JObj [(''error'', JStr (str_exn e))]) 500, s')"
    by (simp add: search_meetings_def)
  have nn: "get_next_meeting_info ag s = (Inr None, s1) \<longrightarrow>
        get_next_meeting lib (Some ag) s
          = (jsonify (JObj [(''message'', JStr ''No upcoming meetings found''),
                            (''meeting'', JNull)]), s1)"
    by (simp add: next_meeting_none)
  have sw: "research_meeting_attendees ag m s = (Inr rs, s1)
        \<and> generate_analysis ag m rs s1 = (Inl e, s') \<longrightarrow>
        enhance_meeting lib ag m s
          = (Inr (meeting_data lib m rs (JStr ''Error generating research summary'')
                   (JStr ''Error generating preparation questions'')), s')"
    by (simp add: enhance_meeting_def bind_call_def)
  have sc: "search_keywords ag keywords_list [] s = (Inl e, s') \<longrightarrow>
        scan_keywords ag d [] s = ([], s')"
    by (simp add: scan_keywords_def)
  have tf: "try_date_formats ag fs [] s = (Inl e, s') \<longrightarrow>
        (\<exists>f \<in> set fs. \<exists>s0. search_meetings_by_keyword ag (JStr f) 10 s0 = (Inl e, s'))"
    by (rule impI) (rule try_date_formats_raises)
  have em: "enhance_meetings lib ag ms s = (Inl e, s') \<longrightarrow>
        (\<exists>m \<in> set ms. \<exists>s0. research_meeting_attendees ag m s0 = (Inl e, s'))"
    by (rule impI) (rule enhance_meetings_raises)
  from view_status [of lib ca req s] view_error_body [of lib ca req s]
    view_404 [of lib ca req s] view_400 [of lib ca req s] view_500 [of lib ca req s]
    na t1 t2 t3 t4
    meetings_for_date_try_raises [of lib ag date_str s e s']
    find_meetings_raises [of ag date_str d fs s e s']
    enhance_meeting_raises [of lib ag m s e s']
    meeting_details_try_raises [of lib ag mid s e s']
    next_meeting_try_raises [of lib ag s e s']
    meeting_details_raises [of lib ag m s e s']
    search_meetings_try_raises [of lib ag payload s e s']
    nn sw sc tf em
  show ?thesis
    by (intro conjI impI) (assumption | erule mp, assumption)+
qed

theorem failure_statuses_witness:
  "status (fst (view sample_lib (Some sample_agent) (Meeting_details ''zz'') 0)) = 404
   \<and> (\<exists>msg. field (body (fst (view sample_lib (Some sample_agent) (Meeting_details ''zz'') 0)))
              ''error'' = Some (JStr msg))
   \<and> status (fst (view sample_lib (None :: nat agent option) Next_meeting 0)) = 500
   \<and> get_next_meeting sample_lib (Some idle_agent) 0
       = (jsonify (JObj [(''message'', JStr ''No upcoming meetings found''),
                         (''meeting'', JNull)]), 1)"
proof -
  let ?r = "view sample_lib (Some sample_agent) (Meeting_details ''zz'') 0"
  have a: "\<exists>mid ag s1. Meeting_details ''zz'' = Meeting_details mid
             \<and> Some sample_agent = Some ag \<and> get_meeting_by_id ag mid 0 = (Inr None, s1)"
    by (simp add: sample_agent_def)
  have b: "(None :: nat agent option) = None \<and> endpoint_of Next_meeting \<noteq> Health_check"
    by simp
  have i: "get_next_meeting_info idle_agent 0 = (Inr None, 1)"
    by (simp add: idle_agent_def)
  note t = failure_statuses [where lib = sample_lib and ca = "Some sample_agent"
      and req = "Meeting_details ''zz''" and s = 0]
  note u = failure_statuses [where lib = sample_lib and ca = "None :: nat agent option"
      and req = Next_meeting and s = 0]
  note v = failure_statuses [where lib = sample_lib and ag = idle_agent and s = 0 and ?s1.0 = 1]
  have c: "status (fst ?r) = 404"
    by (rule t [THEN conjunct2, THEN conjunct2, THEN conjunct1, THEN iffD2, OF a])
  then have "status (fst ?r) \<noteq> 200"
    by simp
  then have d: "\<exists>msg. field (body (fst ?r)) ''error'' = Some (JStr msg)"
    by (rule t [THEN conjunct2, THEN conjunct1, THEN mp])
  have e: "status (fst (view sample_lib (None :: nat agent option) Next_meeting 0)) = 500"
    by (rule u [THEN conjunct2, THEN conjunct2, THEN conjunct2, THEN conjunct2, THEN conjunct2,
          THEN conjunct1, THEN mp, OF b])
  have f: "get_next_meeting sample_lib (Some idle_agent) 0
       = (jsonify (JObj [(''message'', JStr ''No upcoming meetings found''),
                         (''meeting'', JNull)]), 1)"
    by (rule v [THEN conjunct2, THEN conjunct2, THEN conjunct2, THEN conjunct2, THEN conjunct2,
          THEN conjunct2, THEN conjunct2, THEN conjunct2, THEN conjunct2, THEN conjunct2,
          THEN conjunct2, THEN conjunct2, THEN conjunct2, THEN conjunct2, THEN conjunct2,
          THEN conjunct2, THEN conjunct2, THEN conjunct1, THEN mp, OF i])
  from c d e f show ?thesis
    by (intro conjI)
qed

subsection \<open>The fields of a meeting object\<close>

text \<open>
  C5. Every meeting object in a successful (200) response of the four meeting endpoints is
  the meeting object of the meeting the agent returned: it has exactly the fields
  \<^verbatim>\<open>id\<close>, \<^verbatim>\<open>title\<close>, \<^verbatim>\<open>start_time\<close>, \<^verbatim>\<open>end_time\<close>, \<^verbatim>\<open>location\<close>, \<^verbatim>\<open>description\<close>,
  \<^verbatim>\<open>attendees\<close>, \<^verbatim>\<open>research_summary\<close>, \<^verbatim>\<open>preparation_questions\<close>; each time is an ISO
  string when the meeting has it and null otherwise; each attendee entry has exactly the
  fields \<^verbatim>\<open>name\<close>, \<^verbatim>\<open>email\<close>, \<^verbatim>\<open>company\<close>, \<^verbatim>\<open>title\<close>, \<^verbatim>\<open>research_summary\<close>,
  \<^verbatim>\<open>found_info\<close>. (The successful response of \<^verbatim>\<open>GET /next-meeting\<close> with no upcoming
  meeting holds null in place of a meeting object.)
\<close>

theorem meeting_objects_have_the_fields:
  "(status (fst (get_meetings_for_date lib (Some ag) date_str s)) = 200 \<longrightarrow>
      (\<exists>d ms s1 ems. strptime lib date_str ''%Y-%m-%d'' = Inr d
          \<and> find_meetings ag date_str d (date_formats lib d) s = (Inr ms, s1)
          \<and> field (body (fst (get_meetings_for_date lib (Some ag) date_str s))) ''meetings''
               = Some (JArr ems)
          \<and> list_all2 (meeting_object lib) ms ems))
   \<and> (status (fst (search_meetings lib (Some ag) payload s)) = 200 \<longrightarrow>
      (\<exists>data kw ms s1 ems. payload = Inr data \<and> get_keyword data = Inr kw
          \<and> search_meetings_by_keyword ag kw 5 s = (Inr ms, s1)
          \<and> field (body (fst (search_meetings lib (Some ag) payload s))) ''meetings''
               = Some (JArr ems)
          \<and> list_all2 (meeting_object lib) ms ems))
   \<and> (status (fst (get_meeting_details lib (Some ag) mid s)) = 200 \<longrightarrow>
      (\<exists>m s1. get_meeting_by_id ag mid s = (Inr (Some m), s1)
          \<and> meeting_object lib m (body (fst (get_meeting_details lib (Some ag) mid s)))))
   \<and> (status (fst (get_next_meeting lib (Some ag) s)) = 200 \<longrightarrow>
      (\<exists>s1. get_next_meeting_info ag s = (Inr None, s1)
          \<and> field (body (fst (get_next_meeting lib (Some ag) s))) ''meeting'' = Some JNull)
      \<or> (\<exists>m s1 j. get_next_meeting_info ag s = (Inr (Some m), s1)
          \<and> field (body (fst (get_next_meeting lib (Some ag) s))) ''meeting'' = Some j
          \<and> meeting_object lib m j))
   \<and> meeting_fields = [''id'', ''title'', ''start_time'', ''end_time'', ''location'',
        ''description'', ''attendees'', ''research_summary'', ''preparation_questions'']
   \<and> attendee_fields = [''name'', ''email'', ''company'', ''title'', ''research_summary'',
        ''found_info'']"
proof -
  have a: "status (fst (get_meetings_for_date lib (Some ag) date_str s)) = 200 \<longrightarrow>
      (\<exists>d ms s1 ems. strptime lib date_str ''%Y-%m-%d'' = Inr d
          \<and> find_meetings ag date_str d (date_formats lib d) s = (Inr ms, s1)
          \<and> field (body (fst (get_meetings_for_date lib (Some ag) date_str s))) ''meetings''
               = Some (JArr ems)
          \<and> list_all2 (meeting_object lib) ms ems)"
    by (auto simp: handler_defs split: option.splits sum.splits prod.splits if_splits
        dest: enhance_meetings_objects)
  have b: "status (fst (search_meetings lib (Some ag) payload s)) = 200 \<longrightarrow>
      (\<exists>data kw ms s1 ems. payload = Inr data \<and> get_keyword data = Inr kw
          \<and> search_meetings_by_keyword ag kw 5 s = (Inr ms, s1)
          \<and> field (body (fst (search_meetings lib (Some ag) payload s))) ''meetings''
               = Some (JArr ems)
          \<and> list_all2 (meeting_object lib) ms ems)"
    by (auto simp: handler_defs split: option.splits sum.splits prod.splits if_splits
        dest: enhance_meetings_objects)
  have c: "status (fst (get_meeting_details lib (Some ag) mid s)) = 200 \<longrightarrow>
      (\<exists>m s1. get_meeting_by_id ag mid s = (Inr (Some m), s1)
          \<and> meeting_object lib m (body (fst (get_meeting_details lib (Some ag) mid s))))"
    by (auto simp: get_meeting_details_def meeting_details_try_def jsonify_code_def
        jsonify_def bind_call_def return_call_def
        split: option.splits sum.splits prod.splits if_splits dest: meeting_details_object)
  have d: "status (fst (get_next_meeting lib (Some ag) s)) = 200 \<longrightarrow>
      (\<exists>s1. get_next_meeting_info ag s = (Inr None, s1)
          \<and> field (body (fst (get_next_meeting lib (Some ag) s))) ''meeting'' = Some JNull)
      \<or> (\<exists>m s1 j. get_next_meeting_info ag s = (Inr (Some m), s1)
          \<and> field (body (fst (get_next_meeting lib (Some ag) s))) ''meeting'' = Some j
          \<and> meeting_object lib m j)"
    by (auto simp: get_next_meeting_def next_meeting_try_def jsonify_code_def
        jsonify_def bind_call_def return_call_def
        split: option.splits sum.splits prod.splits if_splits dest: meeting_details_object)
  show ?thesis
    using a b c d by (simp add: meeting_fields_def attendee_fields_def)
qed

theorem meeting_objects_have_the_fields_witness:
  "status (fst (get_meeting_details sample_lib (Some sample_agent) ''a1'' 0)) = 200
   \<and> (\<exists>m s1. get_meeting_by_id sample_agent ''a1'' 0 = (Inr (Some m), s1)
        \<and> meeting_object sample_lib m
            (body (fst (get_meeting_details sample_lib (Some sample_agent) ''a1'' 0))))
   \<and> status (fst (search_meetings sample_lib (Some sample_agent)
        (Inr (JObj [(''keyword'', JStr ''call'')])) 0)) = 200
   \<and> (\<exists>ms ems. field (body (fst (search_meetings sample_lib (Some sample_agent)
                     (Inr (JObj [(''keyword'', JStr ''call'')])) 0))) ''meetings''
                  = Some (JArr ems)
        \<and> list_all2 (meeting_object sample_lib) ms ems)"
proof -
  have a: "status (fst (get_meeting_details sample_lib (Some sample_agent) ''a1'' 0)) = 200"
    by code_simp
  have b: "status (fst (search_meetings sample_lib (Some sample_agent)
        (Inr (JObj [(''keyword'', JStr ''call'')])) 0)) = 200"
    by code_simp
  show ?thesis
    using a b
      meeting_objects_have_the_fields [of sample_lib sample_agent _ 0
        "Inr (JObj [(''keyword'', JStr ''call'')])" "''a1''"]
    by blast
qed

subsection \<open>An analysis that raises\<close>

lemma enhance_meetings_append:
  "enhance_meetings lib ag (xs @ ys) s =
     (case enhance_meetings lib ag xs s of
        (Inl e, s') \<Rightarrow> (Inl e, s')
      | (Inr exs, s') \<Rightarrow>
          (case enhance_meetings lib ag ys s' of
             (Inl e, s'') \<Rightarrow> (Inl e, s'')
           | (Inr eys, s'') \<Rightarrow> (Inr (exs @ eys), s'')))"
  by (induction xs arbitrary: s) (auto split: prod.splits sum.splits)

lemma generate_analysis_raises:
  "generate_meeting_summary ag m rs s1 = (Inl e, s2)
   \<or> (\<exists>summary sa. generate_meeting_summary ag m rs s1 = (Inr summary, sa)
         \<and> generate_meeting_type_questions ag m rs sa = (Inl e, s2))
   \<Longrightarrow> generate_analysis ag m rs s1 = (Inl e, s2)"
  by (auto simp: generate_analysis_def bind_call_def)

lemma enhance_meetings_middle:
  assumes "enhance_meetings lib ag pre s0 = (Inr epre, s)"
    and "enhance_meeting lib ag m s = (Inr em, s2)"
    and "enhance_meetings lib ag post s2 = (Inr epost, s3)"
  shows "enhance_meetings lib ag (pre @ m # post) s0 = (Inr (epre @ em # epost), s3)"
  using assms by (simp add: enhance_meetings_append)

text \<open>
  C8. When \<^verbatim>\<open>generate_meeting_summary\<close> or \<^verbatim>\<open>generate_meeting_type_questions\<close> raises for
  a meeting \<open>m\<close> whose attendees were researched, \<^verbatim>\<open>GET /meetings/<date_str>\<close> and
  \<^verbatim>\<open>POST /search-meetings\<close> still answer 200 and include \<open>m\<close>, at its place among the
  meetings processed before and after it, with the two error texts as its
  \<^verbatim>\<open>research_summary\<close> and \<^verbatim>\<open>preparation_questions\<close>; \<^verbatim>\<open>GET /meeting/<meeting_id>\<close> and
  \<^verbatim>\<open>GET /next-meeting\<close> answer the same exception with 500 and its text.
\<close>

theorem analysis_failure_handling:
  assumes research: "research_meeting_attendees ag m s = (Inr rs, s1)"
    and raises: "generate_meeting_summary ag m rs s1 = (Inl e, s2)
       \<or> (\<exists>summary sa. generate_meeting_summary ag m rs s1 = (Inr summary, sa)
             \<and> generate_meeting_type_questions ag m rs sa = (Inl e, s2))"
    and before: "enhance_meetings lib ag pre s0 = (Inr epre, s)"
    and after: "enhance_meetings lib ag post s2 = (Inr epost, s3)"
    and failed: "failed = meeting_data lib m rs (JStr ''Error generating research summary'')
                   (JStr ''Error generating preparation questions'')"
  shows "(strptime lib date_str ''%Y-%m-%d'' = Inr d
          \<and> find_meetings ag date_str d (date_formats lib d) sd = (Inr (pre @ m # post), s0)
         \<longrightarrow> get_meetings_for_date lib (Some ag) date_str sd
             = (jsonify (JObj [(''date'', JStr date_str),
                               (''meetings'', JArr (epre @ failed # epost)),
                               (''count'', JNum (int (length (epre @ failed # epost))))]), s3))
     \<and> (get_keyword data = Inr kw \<and> truthy kw
          \<and> search_meetings_by_keyword ag kw 5 sk = (Inr (pre @ m # post), s0)
         \<longrightarrow> search_meetings lib (Some ag) (Inr data) sk
             = (jsonify (JObj [(''keyword'', kw),
                               (''meetings'', JArr (epre @ failed # epost)),
                               (''count'', JNum (int (length (epre @ failed # epost))))]), s3))
     \<and> (get_meeting_by_id ag mid sg = (Inr (Some m), s)
         \<longrightarrow> get_meeting_details lib (Some ag) mid sg
             = (jsonify_code (JObj [(''error'', JStr (str_exn e))]) 500, s2))
     \<and> (get_next_meeting_info ag sn = (Inr (Some m), s)
         \<longrightarrow> get_next_meeting lib (Some ag) sn
             = (jsonify_code (JObj [(''error'', JStr (str_exn e))]) 500, s2))"
proof -
  have ga: "generate_analysis ag m rs s1 = (Inl e, s2)"
    using raises by (rule generate_analysis_raises)
  have em: "enhance_meeting lib ag m s = (Inr failed, s2)"
    using research ga failed by (simp add: enhance_meeting_def bind_call_def)
  have md: "meeting_details lib ag m s = (Inl e, s2)"
    using research ga by (simp add: meeting_details_def bind_call_def)
  have all: "enhance_meetings lib ag (pre @ m # post) s0 = (Inr (epre @ failed # epost), s3)"
    using before em after by (rule enhance_meetings_middle)
  have a: "strptime lib date_str ''%Y-%m-%d'' = Inr d
          \<and> find_meetings ag date_str d (date_formats lib d) sd = (Inr (pre @ m # post), s0)
         \<longrightarrow> get_meetings_for_date lib (Some ag) date_str sd
             = (jsonify (JObj [(''date'', JStr date_str),
                               (''meetings'', JArr (epre @ failed # epost)),
                               (''count'', JNum (int (length (epre @ failed # epost))))]), s3)"
    using all
    by (simp add: get_meetings_for_date_def meetings_for_date_try_def bind_call_def
        return_call_def)
  have b: "get_keyword data = Inr kw \<and> truthy kw
          \<and> search_meetings_by_keyword ag kw 5 sk = (Inr (pre @ m # post), s0)
         \<longrightarrow> search_meetings lib (Some ag) (Inr data) sk
             = (jsonify (JObj [(''keyword'', kw),
                               (''meetings'', JArr (epre @ failed # epost)),
                               (''count'', JNum (int (length (epre @ failed # epost))))]), s3)"
    using all
    by (simp add: search_meetings_def search_meetings_try_def bind_call_def return_call_def)
  have c: "get_meeting_by_id ag mid sg = (Inr (Some m), s)
         \<longrightarrow> get_meeting_details lib (Some ag) mid sg
             = (jsonify_code (JObj [(''error'', JStr (str_exn e))]) 500, s2)"
    using md
    by (simp add: get_meeting_details_def meeting_details_try_def bind_call_def)
  have d: "get_next_meeting_info ag sn = (Inr (Some m), s)
         \<longrightarrow> get_next_meeting lib (Some ag) sn
             = (jsonify_code (JObj [(''error'', JStr (str_exn e))]) 500, s2)"
    using md
    by (simp add: get_next_meeting_def next_meeting_try_def bind_call_def)
  show ?thesis using a b c d by blast
qed

theorem analysis_failure_handling_witness:
  "search_meetings sample_lib (Some sample_agent) (Inr (JObj [(''keyword'', JStr ''call'')])) 0
     = (jsonify (JObj [(''keyword'', JStr ''call''),
          (''meetings'', JArr [meeting_data sample_lib
              (sample_meeting ''d1'' ''Call'' (Some sample_day)) [sample_result]
              (JStr ''Error generating research summary'')
              (JStr ''Error generating preparation questions'')]),
          (''count'', JNum 1)]), 3)
   \<and> get_meeting_details sample_lib (Some sample_agent) ''d1'' 0
     = (jsonify_code (JObj [(''error'', JStr ''model unavailable'')]) 500, 3)
   \<and> get_next_meeting sample_lib (Some sample_agent) 0
     = (jsonify_code (JObj [(''error'', JStr ''model unavailable'')]) 500, 3)"
proof -
  let ?m = "sample_meeting ''d1'' ''Call'' (Some sample_day)"
  have research: "research_meeting_attendees sample_agent ?m 1 = (Inr [sample_result], 2)"
    by (simp add: sample_agent_def)
  have raises: "generate_meeting_summary sample_agent ?m [sample_result] 2
                  = (Inl (Exn ''model unavailable''), 3)
       \<or> (\<exists>summary sa. generate_meeting_summary sample_agent ?m [sample_result] 2 = (Inr summary, sa)
             \<and> generate_meeting_type_questions sample_agent ?m [sample_result] sa
                  = (Inl (Exn ''model unavailable''), 3))"
    by (simp add: sample_agent_def sample_meeting_def)
  have before: "enhance_meetings sample_lib sample_agent [] (1::nat) = (Inr [], 1)"
    by simp
  have after: "enhance_meetings sample_lib sample_agent [] (3::nat) = (Inr [], 3)"
    by simp
  have kw: "get_keyword (JObj [(''keyword'', JStr ''call'')]) = Inr (JStr ''call'')
            \<and> truthy (JStr ''call'')
            \<and> search_meetings_by_keyword sample_agent (JStr ''call'') 5 0 = (Inr ([] @ ?m # []), 1)"
    by (simp add: get_keyword_def sample_agent_def)
  have byid: "get_meeting_by_id sample_agent ''d1'' 0 = (Inr (Some ?m), 1)"
    by (simp add: sample_agent_def)
  have nxt: "get_next_meeting_info sample_agent 0 = (Inr (Some ?m), 1)"
    by (simp add: sample_agent_def)
  show ?thesis
    using analysis_failure_handling [OF research raises before after refl,
        where data = "JObj [(''keyword'', JStr ''call'')]" and kw = "JStr ''call''"
          and sk = 0 and mid = "''d1''" and sg = 0 and sn = 0] kw byid nxt
    by simp
qed

subsection \<open>The loops of the keyword scan\<close>

lemma filter_by_date_eq:
  "filter_by_date d xs acc = acc @ filter (on_date d) xs"
  by (induction xs arbitrary: acc) (auto simp: on_date_def split: option.splits)

lemma remove_duplicates_eq:
  "remove_duplicates xs acc seen =
     acc @ map (\<lambda>i. xs ! i)
       (filter (\<lambda>i. meeting_title (xs ! i) \<notin> seen \<union> meeting_title ` set (take i xs))
          [0..<length xs])"
proof (induction xs arbitrary: acc seen)
  case Nil
  then show ?case by simp
next
  case (Cons x xs)
  have upt: "[0..<length (x # xs)] = 0 # map Suc [0..<length xs]"
    by (simp add: upt_conv_Cons map_Suc_upt del: upt_Suc)
  show ?case
    unfolding upt
    by (auto simp: Cons.IH filter_map o_def simp del: upt_Suc
        intro!: arg_cong [where f = "map ((!) xs)"] filter_cong)
qed

lemma remove_duplicates_first: "remove_duplicates xs [] {} = first_occurrences xs"
  by (simp add: remove_duplicates_eq first_occurrences_def)

lemma distinct_first_occurrences: "distinct (map meeting_title (first_occurrences xs))"
proof -
  have "distinct (map meeting_title (remove_duplicates xs acc seen))"
    if "distinct (map meeting_title acc)" "meeting_title ` set acc \<subseteq> seen" for acc seen
    using that
  proof (induction xs arbitrary: acc seen)
    case Nil
    then show ?case by simp
  next
    case (Cons x xs)
    show ?case
    proof (cases "meeting_title x \<in> seen")
      case True
      then show ?thesis using Cons by simp
    next
      case False
      have "distinct (map meeting_title (acc @ [x]))"
        using Cons.prems False by auto
      moreover have "meeting_title ` set (acc @ [x]) \<subseteq> insert (meeting_title x) seen"
        using Cons.prems by auto
      ultimately show ?thesis
        using False Cons.IH by simp
    qed
  qed
  from this [of "[]" "{}"] show ?thesis
    by (simp add: remove_duplicates_first)
qed

subsection \<open>A recorded run\<close>

lemma recording_search:
  "search_meetings_by_keyword (recording ag) k n (s, log) =
     (case search_meetings_by_keyword ag k n s of (r, s') \<Rightarrow> (r, (s', log @ [(k, n, r)])))"
  by (simp add: recording_def)

lemma recording_others:
  "research_meeting_attendees (recording ag) m (s, log) =
     (case research_meeting_attendees ag m s of (r, s') \<Rightarrow> (r, (s', log)))"
  "generate_meeting_summary (recording ag) m rs (s, log) =
     (case generate_meeting_summary ag m rs s of (r, s') \<Rightarrow> (r, (s', log)))"
  "generate_meeting_type_questions (recording ag) m rs (s, log) =
     (case generate_meeting_type_questions ag m rs s of (r, s') \<Rightarrow> (r, (s', log)))"
  by (simp_all add: recording_def lift_call_def)

lemma search_keywords_recording:
  "search_keywords (recording ag) kws acc (s, log) = (r, (s', log'))
   \<Longrightarrow> search_keywords ag kws acc s = (r, s')"
  by (induction kws arbitrary: acc s log)
     (auto simp: recording_search split: prod.splits sum.splits)

lemma try_date_formats_recording:
  "try_date_formats (recording ag) fs ms (s, log) = (r, (s', log'))
   \<Longrightarrow> try_date_formats ag fs ms s = (r, s')"
  by (induction fs arbitrary: ms s log)
     (auto simp: recording_search split: prod.splits sum.splits if_splits)

lemma scan_keywords_recording:
  "scan_keywords (recording ag) d ms (s, log) = (found, (s', log'))
   \<Longrightarrow> scan_keywords ag d ms s = (found, s')"
  by (auto simp: scan_keywords_def split: prod.splits sum.splits
      dest!: search_keywords_recording)

lemma find_meetings_recording:
  "find_meetings (recording ag) date_str d fs (s, log) = (r, (s', log'))
   \<Longrightarrow> find_meetings ag date_str d fs s = (r, s')"
  by (auto simp: find_meetings_def bind_call_def return_call_def recording_search
      split: prod.splits sum.splits if_splits
      dest!: try_date_formats_recording scan_keywords_recording)

lemma enhance_meeting_recording:
  "enhance_meeting lib (recording ag) m (s, log) = (r, (s', log'))
   \<Longrightarrow> enhance_meeting lib ag m s = (r, s') \<and> log' = log"
  by (auto simp: enhance_meeting_def generate_analysis_def bind_call_def return_call_def
      recording_others split: prod.splits sum.splits)

lemma enhance_meetings_recording:
  "enhance_meetings lib (recording ag) ms (s, log) = (r, (s', log'))
   \<Longrightarrow> enhance_meetings lib ag ms s = (r, s') \<and> log' = log"
proof (induction ms arbitrary: s log r s' log')
  case Nil
  then show ?case by auto
next
  case (Cons m ms)
  obtain r1 s1 l1 where e1: "enhance_meeting lib (recording ag) m (s, log) = (r1, (s1, l1))"
    by (metis prod.exhaust)
  from enhance_meeting_recording [OF e1]
  have e1': "enhance_meeting lib ag m s = (r1, s1)" and l1: "l1 = log" by simp_all
  show ?case
  proof (cases r1)
    case (Inl e)
    with Cons.prems e1 e1' l1 show ?thesis by simp
  next
    case (Inr em)
    obtain r2 s2 l2 where e2: "enhance_meetings lib (recording ag) ms (s1, log) = (r2, (s2, l2))"
      by (metis prod.exhaust)
    from Cons.IH [OF e2]
    have "enhance_meetings lib ag ms s1 = (r2, s2)" and "l2 = log" by simp_all
    with Cons.prems e1 e1' l1 e2 Inr show ?thesis
      by (auto split: sum.splits)
  qed
qed

lemma search_keywords_log:
  "search_keywords (recording ag) kws acc (s, log) = (r, (s', log'))
   \<Longrightarrow> \<exists>evs. log' = log @ evs
         \<and> cascade 0 (map (\<lambda>k. (JStr k, 20)) kws) evs
         \<and> (\<forall>all. r = Inr all \<longrightarrow>
               all = acc @ concat (map event_meetings evs)
               \<and> map event_call evs = map (\<lambda>k. (JStr k, 20)) kws
               \<and> list_all (\<lambda>ev. \<exists>ms. event_result ev = Inr ms) evs)"
proof (induction kws arbitrary: acc s log)
  case Nil
  then show ?case by auto
next
  case (Cons k kws)
  obtain r1 s1 where s1: "search_meetings_by_keyword ag (JStr k) 20 s = (r1, s1)"
    by (metis prod.exhaust)
  show ?case
  proof (cases r1)
    case (Inl e)
    with Cons.prems s1 have "log' = log @ [(JStr k, 20, Inl e)]" and "r = Inl e"
      by (auto simp: recording_search)
    then show ?thesis by auto
  next
    case (Inr ms)
    with Cons.prems s1
    have "search_keywords (recording ag) kws (acc @ ms) (s1, log @ [(JStr k, 20, Inr ms)])
            = (r, (s', log'))"
      by (simp add: recording_search)
    from Cons.IH [OF this] obtain evs where
      evs: "log' = (log @ [(JStr k, 20, Inr ms)]) @ evs"
        "cascade 0 (map (\<lambda>k. (JStr k, 20)) kws) evs"
        "\<forall>all. r = Inr all \<longrightarrow>
               all = (acc @ ms) @ concat (map event_meetings evs)
               \<and> map event_call evs = map (\<lambda>k. (JStr k, 20)) kws
               \<and> list_all (\<lambda>ev. \<exists>ms. event_result ev = Inr ms) evs"
      by blast
    show ?thesis
      by (rule exI [where x = "(JStr k, 20, Inr ms) # evs"]) (use evs in auto)
  qed
qed

lemma try_date_formats_log:
  "try_date_formats (recording ag) fs [] (s, log) = (r, (s', log'))
   \<Longrightarrow> \<exists>evs. log' = log @ evs
         \<and> (\<forall>P evs2. (if r = Inr [] then cascade 0 P evs2 else evs2 = []) \<longrightarrow>
               cascade (length fs) (map (\<lambda>f. (JStr f, 10)) fs @ P) (evs @ evs2))"
proof (induction fs arbitrary: s log)
  case Nil
  then show ?case by auto
next
  case (Cons f fs)
  obtain r1 s1 where s1: "search_meetings_by_keyword ag (JStr f) 10 s = (r1, s1)"
    by (metis prod.exhaust)
  show ?case
  proof (cases r1)
    case (Inl e)
    with Cons.prems s1 have "log' = log @ [(JStr f, 10, Inl e)]" and "r = Inl e"
      by (auto simp: recording_search)
    then show ?thesis by auto
  next
    case (Inr ms)
    show ?thesis
    proof (cases "ms = []")
      case False
      with Inr Cons.prems s1 have "log' = log @ [(JStr f, 10, Inr ms)]" and "r = Inr ms"
        by (auto simp: recording_search)
      with False show ?thesis by auto
    next
      case True
      with Inr Cons.prems s1
      have "try_date_formats (recording ag) fs [] (s1, log @ [(JStr f, 10, Inr [])])
              = (r, (s', log'))"
        by (simp add: recording_search)
      from Cons.IH [OF this] obtain evs where
        evs: "log' = (log @ [(JStr f, 10, Inr [])]) @ evs"
          "\<forall>P evs2. (if r = Inr [] then cascade 0 P evs2 else evs2 = []) \<longrightarrow>
               cascade (length fs) (map (\<lambda>f. (JStr f, 10)) fs @ P) (evs @ evs2)"
        by blast
      show ?thesis
        by (rule exI [where x = "(JStr f, 10, Inr []) # evs"]) (use evs in auto)
    qed
  qed
qed

lemma scan_keywords_log:
  "scan_keywords (recording ag) d ms (s, log) = (found, (s', log'))
   \<Longrightarrow> \<exists>evs. log' = log @ evs \<and> cascade 0 (map (\<lambda>k. (JStr k, 20)) keywords_list) evs"
  by (auto simp: scan_keywords_def split: prod.splits sum.splits
      dest!: search_keywords_log)

lemma find_meetings_log:
  assumes "find_meetings (recording ag) date_str d fs (s, log) = (r, (s', log'))"
  shows "\<exists>evs. log' = log @ evs
         \<and> cascade (Suc (length fs))
             ((JStr date_str, 10) # map (\<lambda>f. (JStr f, 10)) fs
                @ map (\<lambda>k. (JStr k, 20)) keywords_list) evs"
proof -
  let ?P = "map (\<lambda>k. (JStr k, 20)) keywords_list"
  obtain r1 s1 where s1: "search_meetings_by_keyword ag (JStr date_str) 10 s = (r1, s1)"
    by (metis prod.exhaust)
  show ?thesis
  proof (cases r1)
    case (Inl e)
    with assms s1 have "log' = log @ [(JStr date_str, 10, Inl e)]"
      by (auto simp: find_meetings_def bind_call_def recording_search)
    then show ?thesis by auto
  next
    case (Inr ms)
    show ?thesis
    proof (cases "ms = []")
      case False
      with Inr assms s1 have "log' = log @ [(JStr date_str, 10, Inr ms)]"
        by (auto simp: find_meetings_def bind_call_def return_call_def recording_search)
      with False show ?thesis by auto
    next
      case True
      let ?l1 = "log @ [(JStr date_str, 10, Inr [])]"
      obtain r2 s2 l2 where t: "try_date_formats (recording ag) fs [] (s1, ?l1) = (r2, (s2, l2))"
        by (metis prod.exhaust)
      from try_date_formats_log [OF t] obtain evs where
        evs: "l2 = ?l1 @ evs"
          "\<forall>P evs2. (if r2 = Inr [] then cascade 0 P evs2 else evs2 = []) \<longrightarrow>
               cascade (length fs) (map (\<lambda>f. (JStr f, 10)) fs @ P) (evs @ evs2)"
        by blast
      show ?thesis
      proof (cases "r2 = Inr []")
        case False
        with assms s1 Inr True t have "log' = l2"
          by (auto simp: find_meetings_def bind_call_def return_call_def recording_search
              split: sum.splits if_splits)
        moreover from evs(2) False
        have "cascade (length fs) (map (\<lambda>f. (JStr f, 10)) fs @ ?P) (evs @ [])"
          by (metis (full_types))
        ultimately show ?thesis
          using evs(1) by (intro exI [where x = "(JStr date_str, 10, Inr []) # evs"]) simp
      next
        case r2: True
        obtain found s3 l3 where sc: "scan_keywords (recording ag) d [] (s2, l2) = (found, (s3, l3))"
          by (metis prod.exhaust)
        from scan_keywords_log [OF sc] obtain evs2 where
          evs2: "l3 = l2 @ evs2" "cascade 0 ?P evs2"
          by blast
        from assms s1 Inr True t r2 sc have "log' = l3"
          by (simp add: find_meetings_def bind_call_def return_call_def recording_search)
        moreover from evs(2) r2 evs2(2)
        have "cascade (length fs) (map (\<lambda>f. (JStr f, 10)) fs @ ?P) (evs @ evs2)"
          by simp
        ultimately show ?thesis
          using evs(1) evs2(1)
          by (intro exI [where x = "(JStr date_str, 10, Inr []) # evs @ evs2"]) simp
      qed
    qed
  qed
qed

lemma cascade_calls: "cascade n plan evs \<Longrightarrow> map event_call evs = take (length evs) plan"
  by (induction n plan evs rule: cascade.induct) (auto split: sum.splits if_splits)

lemma cascade_nonempty: "cascade n (c # plan) evs \<Longrightarrow> evs \<noteq> []"
  by (cases evs) auto

lemma cascade_earlier:
  "cascade n plan evs \<Longrightarrow> Suc i < length evs \<Longrightarrow>
   (if i < n then event_result (evs ! i) = Inr [] else (\<exists>ms. event_result (evs ! i) = Inr ms))"
proof (induction n plan evs arbitrary: i rule: cascade.induct)
  case (3 n c plan ev evs)
  show ?case
  proof (cases i)
    case 0
    with "3.prems" show ?thesis by (auto split: sum.splits if_splits)
  next
    case (Suc j)
    with "3.prems" have evs: "evs \<noteq> []" by auto
    with "3.prems" obtain ms where ms: "event_result ev = Inr ms" "\<not> (0 < n \<and> ms \<noteq> [])"
      "cascade (n - 1) plan evs"
      by (auto split: sum.splits if_splits)
    from "3.IH" [OF ms(1) ms(2) ms(3), of j] "3.prems" Suc
    have "if j < n - 1 then event_result (evs ! j) = Inr []
          else (\<exists>ms. event_result (evs ! j) = Inr ms)"
      by simp
    with Suc show ?thesis by (auto split: if_splits)
  qed
qed auto

lemma cascade_goes_on:
  "cascade n plan evs \<Longrightarrow> i < length evs \<Longrightarrow> Suc i < length plan \<Longrightarrow>
   (i < n \<and> event_result (evs ! i) = Inr []) \<or> (n \<le> i \<and> (\<exists>ms. event_result (evs ! i) = Inr ms))
   \<Longrightarrow> Suc i < length evs"
proof (induction n plan evs arbitrary: i rule: cascade.induct)
  case (3 n c plan ev evs)
  show ?case
  proof (cases i)
    case 0
    with "3.prems" have "cascade (n - 1) plan evs"
      by (auto split: sum.splits if_splits)
    moreover from "3.prems" 0 obtain c' plan' where "plan = c' # plan'"
      by (cases plan) auto
    ultimately have "evs \<noteq> []" using cascade_nonempty by blast
    with 0 show ?thesis by simp
  next
    case (Suc j)
    with "3.prems" have evs: "evs \<noteq> []" by auto
    with "3.prems" obtain ms where ms: "event_result ev = Inr ms" "\<not> (0 < n \<and> ms \<noteq> [])"
      "cascade (n - 1) plan evs"
      by (auto split: sum.splits if_splits)
    from "3.prems" Suc
    have "(j < n - 1 \<and> event_result (evs ! j) = Inr [])
          \<or> (n - 1 \<le> j \<and> (\<exists>ms. event_result (evs ! j) = Inr ms))"
      by auto
    from "3.IH" [OF ms(1) ms(2) ms(3), of j] this "3.prems" Suc
    show ?thesis by simp
  qed
qed auto

lemma search_keywords_raised:
  "search_keywords (recording ag) kws acc (s, log) = (Inl e, (s', log'))
   \<Longrightarrow> \<exists>evs. log' = log @ evs \<and> (\<exists>ev \<in> set evs. event_result ev = Inl e)"
proof (induction kws arbitrary: acc s log)
  case Nil
  then show ?case by auto
next
  case (Cons k kws)
  obtain r1 s1 where s1: "search_meetings_by_keyword ag (JStr k) 20 s = (r1, s1)"
    by (metis prod.exhaust)
  show ?case
  proof (cases r1)
    case (Inl e1)
    with Cons.prems s1 have "log' = log @ [(JStr k, 20, Inl e)]"
      by (auto simp: recording_search)
    then show ?thesis by auto
  next
    case (Inr ms)
    with Cons.prems s1
    have "search_keywords (recording ag) kws (acc @ ms) (s1, log @ [(JStr k, 20, Inr ms)])
            = (Inl e, (s', log'))"
      by (simp add: recording_search)
    from Cons.IH [OF this] obtain evs where
      "log' = (log @ [(JStr k, 20, Inr ms)]) @ evs" "\<exists>ev \<in> set evs. event_result ev = Inl e"
      by blast
    then show ?thesis
      by (intro exI [where x = "(JStr k, 20, Inr ms) # evs"]) auto
  qed
qed

lemma try_date_formats_phases:
  "try_date_formats (recording ag) fs [] (s, log) = (r, (s', log'))
   \<Longrightarrow> \<exists>evs. log' = log @ evs \<and> length evs \<le> length fs
         \<and> (r = Inr [] \<longrightarrow> length evs = length fs \<and> (\<forall>ev \<in> set evs. event_result ev = Inr []))
         \<and> (r \<noteq> Inr [] \<longrightarrow> evs \<noteq> [] \<and> event_result (last evs) = r)"
proof (induction fs arbitrary: s log)
  case Nil
  then show ?case by auto
next
  case (Cons f fs)
  obtain r1 s1 where s1: "search_meetings_by_keyword ag (JStr f) 10 s = (r1, s1)"
    by (metis prod.exhaust)
  show ?case
  proof (cases "r1 = Inr []")
    case False
    with Cons.prems s1 have "log' = log @ [(JStr f, 10, r1)]" and "r = r1"
      by (auto simp: recording_search split: sum.splits if_splits)
    with False show ?thesis by auto
  next
    case True
    with Cons.prems s1
    have "try_date_formats (recording ag) fs [] (s1, log @ [(JStr f, 10, Inr [])])
            = (r, (s', log'))"
      by (simp add: recording_search)
    from Cons.IH [OF this] obtain evs where
      evs: "log' = (log @ [(JStr f, 10, Inr [])]) @ evs" "length evs \<le> length fs"
        "r = Inr [] \<longrightarrow> length evs = length fs \<and> (\<forall>ev \<in> set evs. event_result ev = Inr [])"
        "r \<noteq> Inr [] \<longrightarrow> evs \<noteq> [] \<and> event_result (last evs) = r"
      by blast
    show ?thesis
      by (rule exI [where x = "(JStr f, 10, Inr []) # evs"]) (use evs in auto)
  qed
qed

lemma find_meetings_phases:
  assumes "find_meetings (recording ag) date_str d fs (s, log) = (r, (s', log'))"
  shows "(\<exists>evs. log' = log @ evs \<and> evs \<noteq> [] \<and> length evs \<le> Suc (length fs)
              \<and> event_result (last evs) \<noteq> Inr [] \<and> r = event_result (last evs))
         \<or> (\<exists>evs1 s2 found. length evs1 = Suc (length fs)
              \<and> (\<forall>ev \<in> set evs1. event_result ev = Inr [])
              \<and> scan_keywords (recording ag) d [] (s2, log @ evs1) = (found, (s', log'))
              \<and> r = Inr found)"
proof -
  obtain r1 s1 where s1: "search_meetings_by_keyword ag (JStr date_str) 10 s = (r1, s1)"
    by (metis prod.exhaust)
  show ?thesis
  proof (cases "r1 = Inr []")
    case False
    with assms s1 have "log' = log @ [(JStr date_str, 10, r1)]" and "r = r1"
      by (auto simp: find_meetings_def bind_call_def return_call_def recording_search
          split: sum.splits if_splits)
    with False show ?thesis by auto
  next
    case True
    let ?l1 = "log @ [(JStr date_str, 10, Inr [])]"
    obtain r2 s2 l2 where t: "try_date_formats (recording ag) fs [] (s1, ?l1) = (r2, (s2, l2))"
      by (metis prod.exhaust)
    from try_date_formats_phases [OF t] obtain evs where
      evs: "l2 = ?l1 @ evs" "length evs \<le> length fs"
        "r2 = Inr [] \<longrightarrow> length evs = length fs \<and> (\<forall>ev \<in> set evs. event_result ev = Inr [])"
        "r2 \<noteq> Inr [] \<longrightarrow> evs \<noteq> [] \<and> event_result (last evs) = r2"
      by blast
    show ?thesis
    proof (cases "r2 = Inr []")
      case False
      with assms s1 True t have "log' = l2" and "r = r2"
        by (auto simp: find_meetings_def bind_call_def return_call_def recording_search
            split: sum.splits if_splits)
      with evs False have "log' = log @ ((JStr date_str, 10, Inr []) # evs)"
        "event_result (last ((JStr date_str, 10, Inr []) # evs)) \<noteq> Inr []"
        "r = event_result (last ((JStr date_str, 10, Inr []) # evs))"
        by auto
      with evs(2) show ?thesis
        by (intro disjI1 exI [where x = "(JStr date_str, 10, Inr []) # evs"]) simp
    next
      case r2: True
      obtain found s3 l3 where
        sc: "scan_keywords (recording ag) d [] (s2, l2) = (found, (s3, l3))"
        by (metis prod.exhaust)
      from assms s1 True t r2 sc have "log' = l3" "s' = s3" "r = Inr found"
        by (simp_all add: find_meetings_def bind_call_def return_call_def recording_search)
      with sc evs r2 show ?thesis
        by (intro disjI2 exI [where x = "(JStr date_str, 10, Inr []) # evs"]
            exI [where x = s2] exI [where x = found]) simp
    qed
  qed
qed

lemma scan_keywords_result:
  assumes sc: "scan_keywords (recording ag) d ms (s, log) = (found, (s', log'))"
  shows "\<exists>evs. log' = log @ evs \<and> evs \<noteq> []
         \<and> ((\<forall>ev \<in> set evs. \<exists>ms. event_result ev = Inr ms)
              \<and> map event_call evs = map (\<lambda>k. (JStr k, 20)) keywords_list
              \<and> found = filter (on_date d) (first_occurrences (concat (map event_meetings evs)))
            \<or> (\<exists>ev \<in> set evs. \<exists>e. event_result ev = Inl e) \<and> found = ms)"
proof -
  obtain rk sk lk where
    k: "search_keywords (recording ag) keywords_list [] (s, log) = (rk, (sk, lk))"
    by (metis prod.exhaust)
  from sc k have lk: "lk = log'"
    by (auto simp: scan_keywords_def split: sum.splits)
  show ?thesis
  proof (cases rk)
    case (Inl e)
    with k lk have k': "search_keywords (recording ag) keywords_list [] (s, log)
                        = (Inl e, (sk, log'))"
      by simp
    from search_keywords_raised [OF k'] obtain evs where
      evs: "log' = log @ evs" "\<exists>ev \<in> set evs. event_result ev = Inl e"
      by blast
    from sc k Inl have "found = ms"
      by (simp add: scan_keywords_def)
    with evs show ?thesis
      by (intro exI [where x = evs]) auto
  next
    case (Inr all)
    from search_keywords_log [OF k] lk obtain evs where
      evs: "log' = log @ evs"
        "\<forall>all. rk = Inr all \<longrightarrow>
               all = [] @ concat (map event_meetings evs)
               \<and> map event_call evs = map (\<lambda>k. (JStr k, 20)) keywords_list
               \<and> list_all (\<lambda>ev. \<exists>ms. event_result ev = Inr ms) evs"
      by blast
    with Inr have all: "all = concat (map event_meetings evs)"
      and calls: "map event_call evs = map (\<lambda>k. (JStr k, 20)) keywords_list"
      and ok: "\<forall>ev \<in> set evs. \<exists>ms. event_result ev = Inr ms"
      by (simp_all add: list_all_iff)
    from calls have "length evs = length keywords_list"
      by (metis length_map)
    then have ne: "evs \<noteq> []"
      by (auto simp: keywords_list_def)
    from sc k Inr have "found = filter_by_date d (remove_duplicates all [] {}) []"
      by (simp add: scan_keywords_def)
    then have "found = filter (on_date d) (first_occurrences (concat (map event_meetings evs)))"
      by (simp add: filter_by_date_eq remove_duplicates_first all)
    with evs(1) ne ok calls show ?thesis
      by (intro exI [where x = evs]) simp
  qed
qed

lemma find_meetings_resolved:
  assumes run: "find_meetings (recording ag) date_str d fs (s, []) = (r, (s', evs))"
    and n: "n = Suc (length fs)"
  shows "length evs \<le> n \<longrightarrow> r = event_result (last evs) \<and> event_result (last evs) \<noteq> Inr []"
    and "(\<forall>ev \<in> set (take n evs). event_result ev = Inr []) \<longrightarrow> n < length evs"
    and "n < length evs \<longrightarrow> (\<forall>ev \<in> set (take n evs). event_result ev = Inr [])"
    and "n < length evs \<and> (\<forall>ev \<in> set (drop n evs). \<exists>ms. event_result ev = Inr ms) \<longrightarrow>
           map event_call (drop n evs) = map (\<lambda>k. (JStr k, 20)) keywords_list
           \<and> r = Inr (filter (on_date d)
                        (first_occurrences (concat (map event_meetings (drop n evs)))))"
    and "n < length evs \<and> (\<exists>ev \<in> set (drop n evs). \<exists>e. event_result ev = Inl e) \<longrightarrow>
           r = Inr []"
proof -
  from find_meetings_phases [OF run]
  consider (stopped) "evs \<noteq> []" "length evs \<le> n" "event_result (last evs) \<noteq> Inr []"
      "r = event_result (last evs)"
    | (scan) evs1 s2 found where "length evs1 = n"
        "\<forall>ev \<in> set evs1. event_result ev = Inr []"
        "scan_keywords (recording ag) d [] (s2, evs1) = (found, (s', evs))"
        "r = Inr found"
    using n by auto
  then have "(length evs \<le> n \<longrightarrow> r = event_result (last evs) \<and> event_result (last evs) \<noteq> Inr [])
    \<and> ((\<forall>ev \<in> set (take n evs). event_result ev = Inr []) \<longrightarrow> n < length evs)
    \<and> (n < length evs \<longrightarrow> (\<forall>ev \<in> set (take n evs). event_result ev = Inr []))
    \<and> (n < length evs \<and> (\<forall>ev \<in> set (drop n evs). \<exists>ms. event_result ev = Inr ms) \<longrightarrow>
           map event_call (drop n evs) = map (\<lambda>k. (JStr k, 20)) keywords_list
           \<and> r = Inr (filter (on_date d)
                        (first_occurrences (concat (map event_meetings (drop n evs))))))
    \<and> (n < length evs \<and> (\<exists>ev \<in> set (drop n evs). \<exists>e. event_result ev = Inl e) \<longrightarrow>
           r = Inr [])"
  proof cases
    case stopped
    from stopped(1,2) have "last evs \<in> set (take n evs)" by simp
    with stopped show ?thesis by auto
  next
    case scan
    from scan_keywords_result [OF scan(3)] obtain evs2 where
      evs2: "evs = evs1 @ evs2" "evs2 \<noteq> []"
        "(\<forall>ev \<in> set evs2. \<exists>ms. event_result ev = Inr ms)
              \<and> map event_call evs2 = map (\<lambda>k. (JStr k, 20)) keywords_list
              \<and> found = filter (on_date d) (first_occurrences (concat (map event_meetings evs2)))
            \<or> (\<exists>ev \<in> set evs2. \<exists>e. event_result ev = Inl e) \<and> found = []"
      by blast
    from evs2(1) scan(1) have tk: "take n evs = evs1" and dr: "drop n evs = evs2"
      by simp_all
    from evs2(1,2) scan(1) have len: "n < length evs"
      by (cases evs2) simp_all
    have c: "(\<forall>ev \<in> set (drop n evs). \<exists>ms. event_result ev = Inr ms) \<longrightarrow>
           map event_call (drop n evs) = map (\<lambda>k. (JStr k, 20)) keywords_list
           \<and> r = Inr (filter (on_date d)
                        (first_occurrences (concat (map event_meetings (drop n evs)))))"
      unfolding dr using evs2(3) scan(4) by fastforce
    have d: "(\<exists>ev \<in> set (drop n evs). \<exists>e. event_result ev = Inl e) \<longrightarrow> r = Inr []"
      unfolding dr using evs2(3) scan(4) by fastforce
    from len tk scan(2) c d show ?thesis by simp
  qed
  then show "length evs \<le> n \<longrightarrow> r = event_result (last evs) \<and> event_result (last evs) \<noteq> Inr []"
    and "(\<forall>ev \<in> set (take n evs). event_result ev = Inr []) \<longrightarrow> n < length evs"
    and "n < length evs \<longrightarrow> (\<forall>ev \<in> set (take n evs). event_result ev = Inr [])"
    and "n < length evs \<and> (\<forall>ev \<in> set (drop n evs). \<exists>ms. event_result ev = Inr ms) \<longrightarrow>
           map event_call (drop n evs) = map (\<lambda>k. (JStr k, 20)) keywords_list
           \<and> r = Inr (filter (on_date d)
                        (first_occurrences (concat (map event_meetings (drop n evs)))))"
    and "n < length evs \<and> (\<exists>ev \<in> set (drop n evs). \<exists>e. event_result ev = Inl e) \<longrightarrow>
           r = Inr []"
    by blast+
qed

lemma get_meetings_for_date_found:
  assumes "strptime lib date_str ''%Y-%m-%d'' = Inr d"
    and "find_meetings ag date_str d (date_formats lib d) s = (r, s1)"
  shows "get_meetings_for_date lib (Some ag) date_str s =
     (case r of
        Inl e \<Rightarrow>
          (jsonify_code (JObj [(''error'', JStr (str_exn e)), (''meetings'', JArr [])]) 500, s1)
      | Inr meetings \<Rightarrow>
          (case enhance_meetings lib ag meetings s1 of
             (Inl e, s2) \<Rightarrow>
               (jsonify_code (JObj [(''error'', JStr (str_exn e)), (''meetings'', JArr [])]) 500,
                s2)
           | (Inr enhanced_meetings, s2) \<Rightarrow>
               (jsonify (JObj [(''date'', JStr date_str),
                               (''meetings'', JArr enhanced_meetings),
                               (''count'', JNum (int (length enhanced_meetings)))]), s2)))"
  using assms
  by (auto simp: get_meetings_for_date_def meetings_for_date_try_def bind_call_def
      return_call_def split: sum.splits prod.splits)

lemma get_meetings_for_date_recording:
  assumes run: "get_meetings_for_date lib (Some (recording ag)) date_str (s, log)
                  = (response, (s', log'))"
  shows "get_meetings_for_date lib (Some ag) date_str s = (response, s')"
    and "strptime lib date_str ''%Y-%m-%d'' = Inr d \<Longrightarrow>
         \<exists>r s1. find_meetings (recording ag) date_str d (date_formats lib d) (s, log)
                  = (r, (s1, log'))"
proof -
  show "get_meetings_for_date lib (Some ag) date_str s = (response, s')"
  proof (cases "strptime lib date_str ''%Y-%m-%d''")
    case (Inl e)
    with run show ?thesis
      by (auto simp: get_meetings_for_date_def meetings_for_date_try_def raise_call_def)
  next
    case (Inr d)
    obtain r s1 l1 where f: "find_meetings (recording ag) date_str d (date_formats lib d) (s, log)
                               = (r, (s1, l1))"
      by (metis prod.exhaust)
    note f' = find_meetings_recording [OF f]
    show ?thesis
    proof (cases r)
      case (Inl e)
      with run Inr f f' show ?thesis
        by (auto simp: get_meetings_for_date_def meetings_for_date_try_def bind_call_def)
    next
      case ms: (Inr ms)
      obtain r2 s2 l2 where e: "enhance_meetings lib (recording ag) ms (s1, l1) = (r2, (s2, l2))"
        by (metis prod.exhaust)
      note e' = enhance_meetings_recording [OF e]
      from run Inr f f' ms e e' show ?thesis
        by (auto simp: get_meetings_for_date_def meetings_for_date_try_def bind_call_def
            return_call_def split: sum.splits)
    qed
  qed
next
  assume d: "strptime lib date_str ''%Y-%m-%d'' = Inr d"
  obtain r s1 l1 where f: "find_meetings (recording ag) date_str d (date_formats lib d) (s, log)
                             = (r, (s1, l1))"
    by (metis prod.exhaust)
  have "log' = l1"
  proof (cases r)
    case (Inl e)
    with run d f show ?thesis
      by (auto simp: get_meetings_for_date_def meetings_for_date_try_def bind_call_def)
  next
    case ms: (Inr ms)
    obtain r2 s2 l2 where e: "enhance_meetings lib (recording ag) ms (s1, l1) = (r2, (s2, l2))"
      by (metis prod.exhaust)
    note e' = enhance_meetings_recording [OF e]
    from run d f ms e e' show ?thesis
      by (auto simp: get_meetings_for_date_def meetings_for_date_try_def bind_call_def
          return_call_def split: sum.splits)
  qed
  with f show "\<exists>r s1. find_meetings (recording ag) date_str d (date_formats lib d) (s, log)
                  = (r, (s1, log'))"
    by blast
qed

lemma sample_find:
  "find_meetings (recording sample_agent) ''2025-09-24'' sample_day
     (date_formats sample_lib sample_day) (0, [])
   = (Inr [sample_meeting ''a1'' ''Sync'' (Some sample_day),
           sample_meeting ''d1'' ''Call'' (Some sample_day)], (14, sample_log))"
  by code_simp

lemma sample_run_log:
  "snd (snd (get_meetings_for_date sample_lib (Some (recording sample_agent)) ''2025-09-24''
     (0, []))) = sample_log"
  by code_simp

lemma date_run_log:
  "snd (snd (get_meetings_for_date sample_lib (Some (recording date_agent)) ''2025-09-24''
     (0, []))) = date_log"
  by code_simp

lemma raising_find:
  "find_meetings (recording raising_agent) ''2025-09-24'' sample_day
     (date_formats sample_lib sample_day) (0, []) = (Inr [], (10, raising_log))"
  by code_simp

subsection \<open>The fallback cascade of the date search\<close>

text \<open>
  C1. For a request \<^verbatim>\<open>GET /meetings/<date_str>\<close> whose date parses as \<^verbatim>\<open>%Y-%m-%d\<close>, the
  searches the handler makes are, in this order, a beginning of: the literal date string,
  the six reformatted date strings (\<^verbatim>\<open>'%B %d, %Y'\<close>, \<^verbatim>\<open>'%b %d, %Y'\<close>, \<^verbatim>\<open>'%m/%d/%Y'\<close>,
  \<^verbatim>\<open>'%m/%d'\<close>, the day number, \<^verbatim>\<open>'%Y-%m-%d'\<close>), the seven generic keywords. The first
  search is always made; a later date string is searched only after every search before it
  returned an empty list, and is searched whenever the one before it did; the keywords are
  scanned only after all seven date strings returned empty lists, and each keyword after
  the first whenever the search before it returned. The meetings that the handler resolves
  are: when the searches ended among the date strings, what the last of them returned, which
  is the first non-empty result (or its exception); when the keywords were scanned and every
  search returned, the first occurrences by title of the keyword results, filtered by the
  date; and none when a keyword search raised. The response is the one built from exactly
  these meetings, and the recorded run answers as the handler does with the agent itself.
\<close>

theorem date_search_cascade:
  assumes parse: "strptime lib date_str ''%Y-%m-%d'' = Inr target_date"
    and run: "get_meetings_for_date lib (Some (recording ag)) date_str (s, [])
                = (response, (s', evs))"
  shows "get_meetings_for_date lib (Some ag) date_str s = (response, s')
     \<and> search_plan lib date_str target_date =
         [(JStr date_str, 10),
          (JStr (strftime lib target_date ''%B %d, %Y''), 10),
          (JStr (strftime lib target_date ''%b %d, %Y''), 10),
          (JStr (strftime lib target_date ''%m/%d/%Y''), 10),
          (JStr (strftime lib target_date ''%m/%d''), 10),
          (JStr (str_nat (day target_date)), 10),
          (JStr (strftime lib target_date ''%Y-%m-%d''), 10),
          (JStr ''meeting'', 20), (JStr ''interview'', 20), (JStr ''call'', 20),
          (JStr ''appointment'', 20), (JStr ''session'', 20), (JStr ''discussion'', 20),
          (JStr ''event'', 20)]
     \<and> cascade 7 (search_plan lib date_str target_date) evs
     \<and> evs \<noteq> []
     \<and> map event_call evs = take (length evs) (search_plan lib date_str target_date)
     \<and> (\<forall>i. Suc i < length evs \<longrightarrow>
           (if i < 7 then event_result (evs ! i) = Inr []
            else (\<exists>ms. event_result (evs ! i) = Inr ms)))
     \<and> (\<forall>i. i < length evs \<and> i < 13
             \<and> ((i < 7 \<and> event_result (evs ! i) = Inr [])
                 \<or> (7 \<le> i \<and> (\<exists>ms. event_result (evs ! i) = Inr ms)))
           \<longrightarrow> Suc i < length evs)
     \<and> (\<exists>r s1.
           find_meetings ag date_str target_date (date_formats lib target_date) s = (r, s1)
           \<and> (length evs \<le> 7 \<longrightarrow> r = event_result (last evs))
           \<and> (7 < length evs \<and> (\<forall>ev \<in> set (drop 7 evs). \<exists>ms. event_result ev = Inr ms) \<longrightarrow>
                r = Inr (filter (on_date target_date)
                          (first_occurrences (concat (map event_meetings (drop 7 evs))))))
           \<and> (7 < length evs \<and> (\<exists>ev \<in> set (drop 7 evs). \<exists>e. event_result ev = Inl e) \<longrightarrow>
                r = Inr [])
           \<and> (response, s') =
               (case r of
                  Inl e \<Rightarrow>
                    (jsonify_code (JObj [(''error'', JStr (str_exn e)),
                                         (''meetings'', JArr [])]) 500, s1)
                | Inr meetings \<Rightarrow>
                    (case enhance_meetings lib ag meetings s1 of
                       (Inl e, s2) \<Rightarrow>
                         (jsonify_code (JObj [(''error'', JStr (str_exn e)),
                                              (''meetings'', JArr [])]) 500, s2)
                     | (Inr enhanced_meetings, s2) \<Rightarrow>
                         (jsonify (JObj [(''date'', JStr date_str),
                                         (''meetings'', JArr enhanced_meetings),
                                         (''count'', JNum (int (length enhanced_meetings)))]),
                          s2))))"
proof -
  let ?plan = "search_plan lib date_str target_date"
  let ?fs = "date_formats lib target_date"
  from get_meetings_for_date_recording(2) [OF run parse] obtain r s1 where
    f: "find_meetings (recording ag) date_str target_date ?fs (s, []) = (r, (s1, evs))"
    by blast
  have seven: "7 = Suc (length ?fs)"
    by (simp add: date_formats_def)
  from find_meetings_log [OF f]
  have "cascade (Suc (length ?fs)) ?plan evs"
    by (simp add: search_plan_def)
  with seven have c: "cascade 7 ?plan evs"
    by simp
  have plan: "?plan =
         [(JStr date_str, 10),
          (JStr (strftime lib target_date ''%B %d, %Y''), 10),
          (JStr (strftime lib target_date ''%b %d, %Y''), 10),
          (JStr (strftime lib target_date ''%m/%d/%Y''), 10),
          (JStr (strftime lib target_date ''%m/%d''), 10),
          (JStr (str_nat (day target_date)), 10),
          (JStr (strftime lib target_date ''%Y-%m-%d''), 10),
          (JStr ''meeting'', 20), (JStr ''interview'', 20), (JStr ''call'', 20),
          (JStr ''appointment'', 20), (JStr ''session'', 20), (JStr ''discussion'', 20),
          (JStr ''event'', 20)]"
    by (simp add: search_plan_def date_formats_def keywords_list_def)
  have len: "length ?plan = 14"
    by (simp add: search_plan_def date_formats_def keywords_list_def)
  obtain c0 rest where cons: "?plan = c0 # rest"
    by (simp add: search_plan_def)
  have ne: "evs \<noteq> []"
    using c unfolding cons by (rule cascade_nonempty)
  have calls: "map event_call evs = take (length evs) ?plan"
    using c by (rule cascade_calls)
  have earlier: "\<forall>i. Suc i < length evs \<longrightarrow>
           (if i < 7 then event_result (evs ! i) = Inr []
            else (\<exists>ms. event_result (evs ! i) = Inr ms))"
    using cascade_earlier [OF c] by blast
  have on: "\<forall>i. i < length evs \<and> i < 13
             \<and> ((i < 7 \<and> event_result (evs ! i) = Inr [])
                 \<or> (7 \<le> i \<and> (\<exists>ms. event_result (evs ! i) = Inr ms)))
           \<longrightarrow> Suc i < length evs"
  proof (intro allI impI)
    fix i
    assume a: "i < length evs \<and> i < 13
             \<and> ((i < 7 \<and> event_result (evs ! i) = Inr [])
                 \<or> (7 \<le> i \<and> (\<exists>ms. event_result (evs ! i) = Inr ms)))"
    then have "i < length evs" and "Suc i < length ?plan"
      and "(i < 7 \<and> event_result (evs ! i) = Inr [])
                 \<or> (7 \<le> i \<and> (\<exists>ms. event_result (evs ! i) = Inr ms))"
      using len by simp_all
    with c show "Suc i < length evs"
      by (rule cascade_goes_on)
  qed
  note handler = get_meetings_for_date_recording(1) [OF run]
  note found = find_meetings_recording [OF f]
  have r1: "length evs \<le> 7 \<longrightarrow> r = event_result (last evs)"
    using find_meetings_resolved(1) [OF f seven] by blast
  note r2 = find_meetings_resolved(4) [OF f seven]
  note r3 = find_meetings_resolved(5) [OF f seven]
  have resp: "(response, s') =
               (case r of
                  Inl e \<Rightarrow>
                    (jsonify_code (JObj [(''error'', JStr (str_exn e)),
                                         (''meetings'', JArr [])]) 500, s1)
                | Inr meetings \<Rightarrow>
                    (case enhance_meetings lib ag meetings s1 of
                       (Inl e, s2) \<Rightarrow>
                         (jsonify_code (JObj [(''error'', JStr (str_exn e)),
                                              (''meetings'', JArr [])]) 500, s2)
                     | (Inr enhanced_meetings, s2) \<Rightarrow>
                         (jsonify (JObj [(''date'', JStr date_str),
                                         (''meetings'', JArr enhanced_meetings),
                                         (''count'', JNum (int (length enhanced_meetings)))]),
                          s2)))"
    using get_meetings_for_date_found [OF parse found] handler by simp
  have last: "\<exists>r s1.
           find_meetings ag date_str target_date ?fs s = (r, s1)
           \<and> (length evs \<le> 7 \<longrightarrow> r = event_result (last evs))
           \<and> (7 < length evs \<and> (\<forall>ev \<in> set (drop 7 evs). \<exists>ms. event_result ev = Inr ms) \<longrightarrow>
                r = Inr (filter (on_date target_date)
                          (first_occurrences (concat (map event_meetings (drop 7 evs))))))
           \<and> (7 < length evs \<and> (\<exists>ev \<in> set (drop 7 evs). \<exists>e. event_result ev = Inl e) \<longrightarrow>
                r = Inr [])
           \<and> (response, s') =
               (case r of
                  Inl e \<Rightarrow>
                    (jsonify_code (JObj [(''error'', JStr (str_exn e)),
                                         (''meetings'', JArr [])]) 500, s1)
                | Inr meetings \<Rightarrow>
                    (case enhance_meetings lib ag meetings s1 of
                       (Inl e, s2) \<Rightarrow>
                         (jsonify_code (JObj [(''error'', JStr (str_exn e)),
                                              (''meetings'', JArr [])]) 500, s2)
                     | (Inr enhanced_meetings, s2) \<Rightarrow>
                         (jsonify (JObj [(''date'', JStr date_str),
                                         (''meetings'', JArr enhanced_meetings),
                                         (''count'', JNum (int (length enhanced_meetings)))]),
                          s2)))"
    using found r1 r2 r3 resp by blast
  from handler plan c ne calls earlier on last
  show ?thesis
    by (intro conjI)
qed

theorem date_search_cascade_witness:
  "strptime sample_lib ''2025-09-24'' ''%Y-%m-%d'' = Inr sample_day
   \<and> cascade 7 (search_plan sample_lib ''2025-09-24'' sample_day) sample_log
   \<and> map event_call sample_log
       = take (length sample_log) (search_plan sample_lib ''2025-09-24'' sample_day)
   \<and> length sample_log = 14
   \<and> (\<exists>s1. find_meetings sample_agent ''2025-09-24'' sample_day
              (date_formats sample_lib sample_day) 0
            = (Inr (filter (on_date sample_day)
                     (first_occurrences (concat (map event_meetings (drop 7 sample_log))))), s1))
   \<and> cascade 7 (search_plan sample_lib ''2025-09-24'' sample_day) date_log
   \<and> length date_log = 3
   \<and> (\<exists>s1. find_meetings date_agent ''2025-09-24'' sample_day
              (date_formats sample_lib sample_day) 0
            = (Inr [sample_meeting ''e1'' ''Lunch'' (Some other_day)], s1))"
proof -
  let ?run = "get_meetings_for_date sample_lib (Some (recording sample_agent)) ''2025-09-24''
     (0, [])"
  let ?drun = "get_meetings_for_date sample_lib (Some (recording date_agent)) ''2025-09-24''
     (0, [])"
  have parse: "strptime sample_lib ''2025-09-24'' ''%Y-%m-%d'' = Inr sample_day"
    by (simp add: sample_lib_def)
  have run: "?run = (fst ?run, (fst (snd ?run), sample_log))"
    using sample_run_log by (metis prod.collapse)
  have drun: "?drun = (fst ?drun, (fst (snd ?drun), date_log))"
    using date_run_log by (metis prod.collapse)
  have l: "length sample_log = 14" "7 < length sample_log"
    "\<forall>ev \<in> set (drop 7 sample_log). \<exists>ms. event_result ev = Inr ms"
    by (simp_all add: sample_log_def)
  have dl: "length date_log = 3" "length date_log \<le> 7"
    "event_result (last date_log) = Inr [sample_meeting ''e1'' ''Lunch'' (Some other_day)]"
    by (simp_all add: date_log_def)
  note t = date_search_cascade [OF parse run]
  have a1: "cascade 7 (search_plan sample_lib ''2025-09-24'' sample_day) sample_log"
    using t by (elim conjE)
  have a2: "map event_call sample_log
       = take (length sample_log) (search_plan sample_lib ''2025-09-24'' sample_day)"
    using t by (elim conjE)
  from t obtain r s1 where
    f: "find_meetings sample_agent ''2025-09-24'' sample_day
          (date_formats sample_lib sample_day) 0 = (r, s1)"
    and i: "7 < length sample_log
          \<and> (\<forall>ev \<in> set (drop 7 sample_log). \<exists>ms. event_result ev = Inr ms) \<longrightarrow>
          r = Inr (filter (on_date sample_day)
                    (first_occurrences (concat (map event_meetings (drop 7 sample_log)))))"
    by (elim conjE exE) (rule that; assumption)
  have "r = Inr (filter (on_date sample_day)
                    (first_occurrences (concat (map event_meetings (drop 7 sample_log)))))"
    by (rule mp [OF i, OF conjI [OF l(2) l(3)]])
  with f have a3: "\<exists>s1. find_meetings sample_agent ''2025-09-24'' sample_day
              (date_formats sample_lib sample_day) 0
            = (Inr (filter (on_date sample_day)
                     (first_occurrences (concat (map event_meetings (drop 7 sample_log))))), s1)"
    by (intro exI [where x = s1]) (simp only:)
  note d = date_search_cascade [OF parse drun]
  have b1: "cascade 7 (search_plan sample_lib ''2025-09-24'' sample_day) date_log"
    using d by (elim conjE)
  from d obtain r' s1' where
    f': "find_meetings date_agent ''2025-09-24'' sample_day
          (date_formats sample_lib sample_day) 0 = (r', s1')"
    and i': "length date_log \<le> 7 \<longrightarrow> r' = event_result (last date_log)"
    by (elim conjE exE) (rule that; assumption)
  from i' dl(2,3) have "r' = Inr [sample_meeting ''e1'' ''Lunch'' (Some other_day)]"
    by simp
  with f' have b2: "\<exists>s1. find_meetings date_agent ''2025-09-24'' sample_day
              (date_formats sample_lib sample_day) 0
            = (Inr [sample_meeting ''e1'' ''Lunch'' (Some other_day)], s1)"
    by (intro exI [where x = s1']) (simp only:)
  from parse a1 a2 l(1) a3 b1 dl(1) b2 show ?thesis
    by (intro conjI)
qed

subsection \<open>The result of the keyword scan\<close>

text \<open>
  C2, as the code has it. A keyword search that raises ends the scan, and the scan's own
  \<^verbatim>\<open>except\<close> leaves the list of meetings empty: a meeting of the requested day that an
  earlier keyword search had found is not in the result, and the handler answers 200 with
  no meetings.
\<close>

theorem keyword_scan_swallows_a_raising_search:
  "find_meetings (recording raising_agent) ''2025-09-24'' sample_day
     (date_formats sample_lib sample_day) (0, []) = (Inr [], (10, raising_log))
   \<and> sample_meeting ''a1'' ''Sync'' (Some sample_day)
       \<in> set (filter (on_date sample_day)
                (first_occurrences (concat (map event_meetings (drop 7 raising_log)))))
   \<and> get_meetings_for_date sample_lib (Some raising_agent) ''2025-09-24'' 0
       = (jsonify (JObj [(''date'', JStr ''2025-09-24''), (''meetings'', JArr []),
                         (''count'', JNum 0)]), 10)"
proof -
  have "sample_meeting ''a1'' ''Sync'' (Some sample_day)
       \<in> set (filter (on_date sample_day)
                (first_occurrences (concat (map event_meetings (drop 7 raising_log)))))"
    by code_simp
  moreover have "get_meetings_for_date sample_lib (Some raising_agent) ''2025-09-24'' 0
       = (jsonify (JObj [(''date'', JStr ''2025-09-24''), (''meetings'', JArr []),
                         (''count'', JNum 0)]), 10)"
    by code_simp
  ultimately show ?thesis
    using raising_find by blast
qed

text \<open>
  C2, amended. When the seven date strings found nothing, the keyword scan runs. If every
  keyword search returns, the meetings that the handler goes on to process are the first
  occurrences by title of the concatenated results of the seven keyword searches (in
  keyword order), restricted to the meetings that have a start time on the requested day:
  no two of them share a title, and a meeting without start time or on another day is left
  out. If a keyword search raises, the list is empty, and the handler answers 200 with no
  meetings and count 0.
\<close>

theorem keyword_scan_result:
  assumes run: "find_meetings (recording ag) date_str target_date
                  (date_formats lib target_date) (s, []) = (r, (s', evs))"
    and empty: "\<forall>ev \<in> set (take 7 evs). event_result ev = Inr []"
  shows "find_meetings ag date_str target_date (date_formats lib target_date) s = (r, s')
     \<and> 7 < length evs
     \<and> ((\<forall>ev \<in> set (drop 7 evs). \<exists>ms. event_result ev = Inr ms) \<longrightarrow>
          map event_call (drop 7 evs) = map (\<lambda>k. (JStr k, 20)) keywords_list
          \<and> r = Inr (filter (on_date target_date)
                       (first_occurrences (concat (map event_meetings (drop 7 evs)))))
          \<and> distinct (map meeting_title
                       (first_occurrences (concat (map event_meetings (drop 7 evs)))))
          \<and> (\<forall>found. r = Inr found \<longrightarrow>
                distinct (map meeting_title found)
                \<and> (\<forall>m. m \<in> set found \<longleftrightarrow>
                       m \<in> set (first_occurrences (concat (map event_meetings (drop 7 evs))))
                       \<and> (\<exists>st. start_time m = Some st \<and> date st = date target_date))))
     \<and> ((\<exists>ev \<in> set (drop 7 evs). \<exists>e. event_result ev = Inl e) \<longrightarrow>
          r = Inr []
          \<and> (strptime lib date_str ''%Y-%m-%d'' = Inr target_date \<longrightarrow>
               get_meetings_for_date lib (Some ag) date_str s
                 = (jsonify (JObj [(''date'', JStr date_str), (''meetings'', JArr []),
                                   (''count'', JNum 0)]), s')))"
proof -
  let ?fs = "date_formats lib target_date"
  let ?all = "concat (map event_meetings (drop 7 evs))"
  have seven: "7 = Suc (length ?fs)"
    by (simp add: date_formats_def)
  note found = find_meetings_recording [OF run]
  from find_meetings_resolved(2) [OF run seven] empty have len: "7 < length evs"
    by blast
  have ok: "(\<forall>ev \<in> set (drop 7 evs). \<exists>ms. event_result ev = Inr ms) \<longrightarrow>
          map event_call (drop 7 evs) = map (\<lambda>k. (JStr k, 20)) keywords_list
          \<and> r = Inr (filter (on_date target_date) (first_occurrences ?all))
          \<and> distinct (map meeting_title (first_occurrences ?all))
          \<and> (\<forall>found. r = Inr found \<longrightarrow>
                distinct (map meeting_title found)
                \<and> (\<forall>m. m \<in> set found \<longleftrightarrow>
                       m \<in> set (first_occurrences ?all)
                       \<and> (\<exists>st. start_time m = Some st \<and> date st = date target_date)))"
  proof
    assume a: "\<forall>ev \<in> set (drop 7 evs). \<exists>ms. event_result ev = Inr ms"
    with find_meetings_resolved(4) [OF run seven] len
    have calls: "map event_call (drop 7 evs) = map (\<lambda>k. (JStr k, 20)) keywords_list"
      and r: "r = Inr (filter (on_date target_date) (first_occurrences ?all))"
      by blast+
    have dist: "distinct (map meeting_title (first_occurrences ?all))"
      by (rule distinct_first_occurrences)
    then have dist2: "distinct (map meeting_title
                        (filter (on_date target_date) (first_occurrences ?all)))"
      by (simp add: distinct_map_filter)
    have mem: "\<And>m. m \<in> set (filter (on_date target_date) (first_occurrences ?all)) \<longleftrightarrow>
                  m \<in> set (first_occurrences ?all)
                  \<and> (\<exists>st. start_time m = Some st \<and> date st = date target_date)"
      by (auto simp: on_date_def split: option.splits)
    from calls r dist dist2 mem
    show "map event_call (drop 7 evs) = map (\<lambda>k. (JStr k, 20)) keywords_list
          \<and> r = Inr (filter (on_date target_date) (first_occurrences ?all))
          \<and> distinct (map meeting_title (first_occurrences ?all))
          \<and> (\<forall>found. r = Inr found \<longrightarrow>
                distinct (map meeting_title found)
                \<and> (\<forall>m. m \<in> set found \<longleftrightarrow>
                       m \<in> set (first_occurrences ?all)
                       \<and> (\<exists>st. start_time m = Some st \<and> date st = date target_date)))"
      by simp
  qed
  have raised: "(\<exists>ev \<in> set (drop 7 evs). \<exists>e. event_result ev = Inl e) \<longrightarrow>
          r = Inr []
          \<and> (strptime lib date_str ''%Y-%m-%d'' = Inr target_date \<longrightarrow>
               get_meetings_for_date lib (Some ag) date_str s
                 = (jsonify (JObj [(''date'', JStr date_str), (''meetings'', JArr []),
                                   (''count'', JNum 0)]), s'))"
  proof
    assume a: "\<exists>ev \<in> set (drop 7 evs). \<exists>e. event_result ev = Inl e"
    with find_meetings_resolved(5) [OF run seven] len have r: "r = Inr []"
      by blast
    have "strptime lib date_str ''%Y-%m-%d'' = Inr target_date \<longrightarrow>
               get_meetings_for_date lib (Some ag) date_str s
                 = (jsonify (JObj [(''date'', JStr date_str), (''meetings'', JArr []),
                                   (''count'', JNum 0)]), s')"
    proof
      assume p: "strptime lib date_str ''%Y-%m-%d'' = Inr target_date"
      from get_meetings_for_date_found [OF p found] r
      show "get_meetings_for_date lib (Some ag) date_str s
                 = (jsonify (JObj [(''date'', JStr date_str), (''meetings'', JArr []),
                                   (''count'', JNum 0)]), s')"
        by simp
    qed
    with r show "r = Inr []
          \<and> (strptime lib date_str ''%Y-%m-%d'' = Inr target_date \<longrightarrow>
               get_meetings_for_date lib (Some ag) date_str s
                 = (jsonify (JObj [(''date'', JStr date_str), (''meetings'', JArr []),
                                   (''count'', JNum 0)]), s'))"
      by simp
  qed
  from found len ok raised show ?thesis
    by (intro conjI)
qed

theorem keyword_scan_result_witness:
  "find_meetings sample_agent ''2025-09-24'' sample_day (date_formats sample_lib sample_day) 0
     = (Inr [sample_meeting ''a1'' ''Sync'' (Some sample_day),
             sample_meeting ''d1'' ''Call'' (Some sample_day)], 14)
   \<and> Inr [sample_meeting ''a1'' ''Sync'' (Some sample_day),
           sample_meeting ''d1'' ''Call'' (Some sample_day)]
     = (Inr (filter (on_date sample_day)
               (first_occurrences (concat (map event_meetings (drop 7 sample_log)))))
         :: exn + meeting list)
   \<and> map event_call (drop 7 sample_log) = map (\<lambda>k. (JStr k, 20)) keywords_list
   \<and> find_meetings raising_agent ''2025-09-24'' sample_day
       (date_formats sample_lib sample_day) 0 = (Inr [], 10)
   \<and> get_meetings_for_date sample_lib (Some raising_agent) ''2025-09-24'' 0
       = (jsonify (JObj [(''date'', JStr ''2025-09-24''), (''meetings'', JArr []),
                         (''count'', JNum 0)]), 10)"
proof -
  have empty: "\<forall>ev \<in> set (take 7 sample_log). event_result ev = Inr []"
    by (simp add: sample_log_def)
  have returned: "\<forall>ev \<in> set (drop 7 sample_log). \<exists>ms. event_result ev = Inr ms"
    by (simp add: sample_log_def)
  have empty': "\<forall>ev \<in> set (take 7 raising_log). event_result ev = Inr []"
    by (simp add: raising_log_def sample_log_def)
  have raised: "\<exists>ev \<in> set (drop 7 raising_log). \<exists>e. event_result ev = Inl e"
    by (simp add: raising_log_def sample_log_def)
  have parse: "strptime sample_lib ''2025-09-24'' ''%Y-%m-%d'' = Inr sample_day"
    by (simp add: sample_lib_def)
  from keyword_scan_result [OF sample_find empty] returned
  have a: "find_meetings sample_agent ''2025-09-24'' sample_day
             (date_formats sample_lib sample_day) 0
     = (Inr [sample_meeting ''a1'' ''Sync'' (Some sample_day),
             sample_meeting ''d1'' ''Call'' (Some sample_day)], 14)
   \<and> Inr [sample_meeting ''a1'' ''Sync'' (Some sample_day),
           sample_meeting ''d1'' ''Call'' (Some sample_day)]
     = (Inr (filter (on_date sample_day)
               (first_occurrences (concat (map event_meetings (drop 7 sample_log)))))
         :: exn + meeting list)
   \<and> map event_call (drop 7 sample_log) = map (\<lambda>k. (JStr k, 20)) keywords_list"
    by blast
  from keyword_scan_result [OF raising_find empty'] raised parse
  have b: "find_meetings raising_agent ''2025-09-24'' sample_day
       (date_formats sample_lib sample_day) 0 = (Inr [], 10)
   \<and> get_meetings_for_date sample_lib (Some raising_agent) ''2025-09-24'' 0
       = (jsonify (JObj [(''date'', JStr ''2025-09-24''), (''meetings'', JArr []),
                         (''count'', JNum 0)]), 10)"
    by blast
  from a b show ?thesis by blast
qed


end
